theory Spec2Isabelle
  imports Complex_Main "HOL-Library.AList"
begin

section \<open>JavaScript values\<close>

text \<open>
  The features drawn by the overlay are whatever \<^verbatim>\<open>res.json()\<close> produced: JSON values.
  Reading a property that is not there gives \<^verbatim>\<open>undefined\<close>, so the value type has it as
  well. Numbers are IEEE doubles in the program and reals here: rounding and overflow are left
  out, \<^verbatim>\<open>NaN\<close> is kept (type \<open>jsnum\<close>), since arithmetic on a value that is
  not a number produces it. An object is the list of its own properties.
\<close>

datatype jsval =
    JUndefined
  | JNull
  | JBool bool
  | JNum real
  | JStr string
  | JArr "jsval list"
  | JObj "(string \<times> jsval) list"

datatype jsnum = Fin real | NaN

text \<open>
  What the program can throw or be rejected with. A \<^verbatim>\<open>TypeError\<close>'s message is the
  engine's own and is not modelled; \<^verbatim>\<open>new Error(msg)\<close> keeps its message.
\<close>

datatype js_error = TypeError | SyntaxError | AbortError | Error string

definition bind_r :: "js_error + 'a \<Rightarrow> ('a \<Rightarrow> js_error + 'b) \<Rightarrow> js_error + 'b" where
  "bind_r r f = (case r of Inl e \<Rightarrow> Inl e | Inr v \<Rightarrow> f v)"

text \<open>\<^verbatim>\<open>xs.map(f)\<close> where \<open>f\<close> may throw: the first throw ends the map.\<close>

fun map_r :: "('a \<Rightarrow> js_error + 'b) \<Rightarrow> 'a list \<Rightarrow> js_error + 'b list" where
  "map_r f [] = Inr []"
| "map_r f (x # xs) =
     (case f x of
        Inl e \<Rightarrow> Inl e
      | Inr y \<Rightarrow> (case map_r f xs of Inl e \<Rightarrow> Inl e | Inr ys \<Rightarrow> Inr (y # ys)))"

text \<open>Truthiness (\<^verbatim>\<open>!v\<close>, \<^verbatim>\<open>a || b\<close>, \<^verbatim>\<open>c ? x : y\<close>).\<close>

fun truthy :: "jsval \<Rightarrow> bool" where
  "truthy JUndefined = False"
| "truthy JNull = False"
| "truthy (JBool b) = b"
| "truthy (JNum r) = (r \<noteq> 0)"
| "truthy (JStr s) = (s \<noteq> [])"
| "truthy (JArr xs) = True"
| "truthy (JObj kvs) = True"

fun nullish :: "jsval \<Rightarrow> bool" where
  "nullish JUndefined = True"
| "nullish JNull = True"
| "nullish v = False"

fun isArray :: "jsval \<Rightarrow> bool" where
  "isArray (JArr xs) = True"
| "isArray v = False"

fun is_number :: "jsval \<Rightarrow> bool" where
  "is_number (JNum r) = True"
| "is_number v = False"

text \<open>Decimal digits of a natural number, as \<^verbatim>\<open>String(n)\<close> and a template literal print it.\<close>

definition digit_char :: "nat \<Rightarrow> char" where
  "digit_char d = ''0123456789'' ! d"

fun show_nat :: "nat \<Rightarrow> string" where
  "show_nat n = (if n < 10 then [digit_char n] else show_nat (n div 10) @ [digit_char (n mod 10)])"

declare show_nat.simps [simp del]

text \<open>
  \<^verbatim>\<open>v.k\<close> for a named key \<open>k\<close> (the program reads \<^verbatim>\<open>geometry\<close>, \<^verbatim>\<open>type\<close>,
  \<^verbatim>\<open>coordinates\<close>, \<^verbatim>\<open>properties\<close>, \<^verbatim>\<open>risk\<close>, \<^verbatim>\<open>features\<close> and \<^verbatim>\<open>geojson\<close>,
  none of which a prototype defines): a \<^verbatim>\<open>TypeError\<close> on \<^verbatim>\<open>undefined\<close> and
  \<^verbatim>\<open>null\<close>, the own property of an object, \<^verbatim>\<open>undefined\<close> otherwise.
\<close>

fun get_prop :: "string \<Rightarrow> jsval \<Rightarrow> js_error + jsval" where
  "get_prop k JUndefined = Inl TypeError"
| "get_prop k JNull = Inl TypeError"
| "get_prop k (JObj kvs) = Inr (case map_of kvs k of None \<Rightarrow> JUndefined | Some v \<Rightarrow> v)"
| "get_prop k (JArr xs) = Inr (if k = ''length'' then JNum (real (length xs)) else JUndefined)"
| "get_prop k (JStr s) = Inr (if k = ''length'' then JNum (real (length s)) else JUndefined)"
| "get_prop k v = Inr JUndefined"

text \<open>\<^verbatim>\<open>v[i]\<close> for an index \<open>i\<close>.\<close>

fun get_index :: "nat \<Rightarrow> jsval \<Rightarrow> js_error + jsval" where
  "get_index i JUndefined = Inl TypeError"
| "get_index i JNull = Inl TypeError"
| "get_index i (JArr xs) = Inr (if i < length xs then xs ! i else JUndefined)"
| "get_index i (JStr s) = Inr (if i < length s then JStr [s ! i] else JUndefined)"
| "get_index i (JObj kvs) =
     Inr (case map_of kvs (show_nat i) of None \<Rightarrow> JUndefined | Some v \<Rightarrow> v)"
| "get_index i v = Inr JUndefined"

text \<open>
  \<^verbatim>\<open>const [a, b] = v\<close>: \<open>v\<close> must be iterable (an array or a string, among JSON values),
  else a \<^verbatim>\<open>TypeError\<close>; missing elements are \<^verbatim>\<open>undefined\<close>.
\<close>

fun destructure2 :: "jsval \<Rightarrow> js_error + (jsval \<times> jsval)" where
  "destructure2 (JArr xs) =
     Inr (if 0 < length xs then xs ! 0 else JUndefined,
          if 1 < length xs then xs ! 1 else JUndefined)"
| "destructure2 (JStr s) =
     Inr (if 0 < length s then JStr [s ! 0] else JUndefined,
          if 1 < length s then JStr [s ! 1] else JUndefined)"
| "destructure2 v = Inl TypeError"

text \<open>
  \<^verbatim>\<open>ToNumber\<close>, as \<^verbatim>\<open>*\<close> applies it to its operands. On a string, an array or an object
  it goes through the language's string-to-number conversion, which is a parameter \<open>coerce\<close>
  of the model.
\<close>

fun ToNumber :: "(jsval \<Rightarrow> jsnum) \<Rightarrow> jsval \<Rightarrow> jsnum" where
  "ToNumber coerce JUndefined = NaN"
| "ToNumber coerce JNull = Fin 0"
| "ToNumber coerce (JBool b) = Fin (if b then 1 else 0)"
| "ToNumber coerce (JNum r) = Fin r"
| "ToNumber coerce v = coerce v"

fun num_times :: "jsnum \<Rightarrow> jsnum \<Rightarrow> jsnum" where
  "num_times (Fin a) (Fin b) = Fin (a * b)"
| "num_times a b = NaN"

fun num_plus :: "jsnum \<Rightarrow> jsnum \<Rightarrow> jsnum" where
  "num_plus (Fin a) (Fin b) = Fin (a + b)"
| "num_plus a b = NaN"

text \<open>\<^verbatim>\<open>Math.min(a, b)\<close>: \<^verbatim>\<open>NaN\<close> if either is.\<close>

fun Math_min :: "jsnum \<Rightarrow> jsnum \<Rightarrow> jsnum" where
  "Math_min (Fin a) (Fin b) = Fin (min a b)"
| "Math_min a b = NaN"

section \<open>Geometry: from a feature to primitives\<close>

text \<open>
  \<^verbatim>\<open>latLongToVector3(lat, lon, alt)\<close> on numbers. A vertex of the scene is kept as the
  arguments of that call (\<open>Vertex lat lon alt\<close>), since the feed's coordinates need not be
  numbers; \<open>vertex_position\<close> gives the vector where they are.
\<close>

definition latLongToVector3 :: "real \<Rightarrow> real \<Rightarrow> real \<Rightarrow> real \<times> real \<times> real" where
  "latLongToVector3 lat lon alt =
     (let radius = 1 + alt;
          phi = (90 - lat) * (pi / 180);
          theta = (lon + 180) * (pi / 180)
      in (- radius * sin phi * cos theta, radius * cos phi, radius * sin phi * sin theta))"

datatype vertex = Vertex (v_lat: jsval) (v_lon: jsval) (v_alt: real)

fun vertex_position :: "vertex \<Rightarrow> (real \<times> real \<times> real) option" where
  "vertex_position (Vertex (JNum lat) (JNum lon) alt) = Some (latLongToVector3 lat lon alt)"
| "vertex_position v = None"

text \<open>
  What a component hands to the scene: \<^verbatim>\<open>GeoPoint\<close> a sphere mesh of the given size placed
  at \<^verbatim>\<open>latLongToVector3(lat, lon, altitude)\<close>, \<^verbatim>\<open>GeoPolygon\<close> a line through its points.
  React keys are identities of elements, not part of what is drawn, and are left out.
\<close>

datatype primitive =
    PointMesh (p_lat: jsval) (p_lon: jsval) (p_size: jsnum) (p_color: string) (p_altitude: real)
  | LineStrip (l_pts: "vertex list") (l_color: string) (l_opacity: real)

text \<open>The \<^verbatim>\<open>pts\<close> memo of \<^verbatim>\<open>GeoPolygon\<close>.\<close>

definition GeoPolygon_pts :: "jsval \<Rightarrow> real \<Rightarrow> js_error + vertex list" where
  "GeoPolygon_pts coordinates altitude =
     (if \<not> truthy coordinates \<or> \<not> isArray coordinates then Inr []
      else
        bind_r (get_index 0 coordinates) (\<lambda>c0.
        bind_r (get_index 0 c0) (\<lambda>c00.
        bind_r (if isArray c00 then bind_r (get_index 0 c00) (\<lambda>x. Inr (is_number x))
                else Inr False) (\<lambda>nested.
          (case (if nested then c0 else if truthy c00 then c00 else JArr []) of
             JArr ring \<Rightarrow>
               map_r (\<lambda>p. bind_r (destructure2 p) (\<lambda>(lon, lat). Inr (Vertex lat lon altitude)))
                 ring
           | _ \<Rightarrow> Inl TypeError)))))"

text \<open>\<^verbatim>\<open>GeoPolygon\<close>: nothing (\<^verbatim>\<open>null\<close>) when there are no points, else one line.\<close>

definition GeoPolygon :: "jsval \<Rightarrow> string \<Rightarrow> real \<Rightarrow> real \<Rightarrow> js_error + primitive list" where
  "GeoPolygon coordinates col opacity altitude =
     bind_r (GeoPolygon_pts coordinates altitude) (\<lambda>pts.
       Inr (if pts = [] then [] else [LineStrip pts col opacity]))"

text \<open>\<^verbatim>\<open>GeoPoint\<close>: always one mesh.\<close>

definition GeoPoint :: "jsval \<Rightarrow> jsval \<Rightarrow> jsnum \<Rightarrow> string \<Rightarrow> real \<Rightarrow> primitive list" where
  "GeoPoint lat lon sz col altitude = [PointMesh lat lon sz col altitude]"

section \<open>The overlay's rendering\<close>

datatype disaster = fires | floods | landslides

fun disaster_name :: "disaster \<Rightarrow> string" where
  "disaster_name fires = ''fires''"
| "disaster_name floods = ''floods''"
| "disaster_name landslides = ''landslides''"

record style =
  color :: string
  altOffset :: real

fun disasterStyle :: "disaster \<Rightarrow> style" where
  "disasterStyle fires = \<lparr>color = ''#ff6600'', altOffset = 0.02\<rparr>"
| "disasterStyle floods = \<lparr>color = ''#0066ff'', altOffset = 0.025\<rparr>"
| "disasterStyle landslides = \<lparr>color = ''#ffcc00'', altOffset = 0.018\<rparr>"

text \<open>\<^verbatim>\<open>feat.properties?.risk ?? 0.5\<close>, for a feature that is not \<^verbatim>\<open>null\<close> or \<^verbatim>\<open>undefined\<close>.\<close>

definition effective_risk :: "jsval \<Rightarrow> jsval" where
  "effective_risk feat =
     (let risk = (case get_prop ''properties'' feat of
                    Inl e \<Rightarrow> JUndefined
                  | Inr props \<Rightarrow>
                      if nullish props then JUndefined
                      else (case get_prop ''risk'' props of Inl e \<Rightarrow> JUndefined | Inr r \<Rightarrow> r))
      in if nullish risk then JNum 0.5 else risk)"

text \<open>\<^verbatim>\<open>0.006 + Math.min(0.03, risk * 0.08)\<close>.\<close>

definition point_size :: "(jsval \<Rightarrow> jsnum) \<Rightarrow> jsval \<Rightarrow> jsnum" where
  "point_size coerce risk =
     num_plus (Fin 0.006) (Math_min (Fin 0.03) (num_times (ToNumber coerce risk) (Fin 0.08)))"

text \<open>\<^verbatim>\<open>1 + style.altOffset ? 1 + style.altOffset : 0.02\<close>.\<close>

definition point_altitude :: "style \<Rightarrow> real" where
  "point_altitude st = (if 1 + altOffset st \<noteq> 0 then 1 + altOffset st else 0.02)"

text \<open>
  The body of \<^verbatim>\<open>features.map((feat, i) => ...)\<close> followed by the component it returns: the
  primitives of one feature, or the error thrown while rendering it.
\<close>

definition render_feature ::
  "(jsval \<Rightarrow> jsnum) \<Rightarrow> style \<Rightarrow> nat \<Rightarrow> jsval \<Rightarrow> js_error + primitive list" where
  "render_feature coerce st horizonIdx feat =
     (if \<not> truthy feat then Inr []
      else
        bind_r (get_prop ''geometry'' feat) (\<lambda>geom.
          if \<not> truthy geom then Inr []
          else
            bind_r (get_prop ''type'' geom) (\<lambda>ty.
              if ty = JStr ''Point'' then
                bind_r (get_prop ''coordinates'' geom) (\<lambda>cs.
                bind_r (destructure2 cs) (\<lambda>(lon, lat).
                  Inr (GeoPoint lat lon (point_size coerce (effective_risk feat)) (color st)
                         (point_altitude st))))
              else if ty = JStr ''Polygon'' \<or> ty = JStr ''MultiPolygon'' then
                bind_r (get_prop ''coordinates'' geom) (\<lambda>cs.
                bind_r (if ty = JStr ''Polygon'' then Inr cs else get_index 0 cs) (\<lambda>coordinates.
                  GeoPolygon coordinates (color st) 0.22 (0.01 + real horizonIdx * 0.002)))
              else Inr [])))"

text \<open>One \<^verbatim>\<open>(disaster, horizon)\<close> group: the features in order; a throw ends the render.\<close>

definition render_cell ::
  "(jsval \<Rightarrow> jsnum) \<Rightarrow> style \<Rightarrow> nat \<Rightarrow> jsval list \<Rightarrow> js_error + primitive list" where
  "render_cell coerce st horizonIdx features =
     bind_r (map_r (render_feature coerce st horizonIdx) features) (\<lambda>pss. Inr (concat pss))"

section \<open>The prediction engine\<close>

text \<open>
  What \<^verbatim>\<open>fetch\<close> settles with is the environment's choice: a rejection (network failure,
  abort), or a response with its status and what \<^verbatim>\<open>res.text()\<close> and \<^verbatim>\<open>res.json()\<close> would
  settle with (the body's text; its parse, a \<^verbatim>\<open>SyntaxError\<close> where it is not JSON).
\<close>

record response =
  status :: nat
  body_text :: "js_error + string"
  body_json :: "js_error + jsval"

datatype outcome = Rejected js_error | Responded response

text \<open>\<^verbatim>\<open>res.ok\<close>.\<close>

definition ok :: "response \<Rightarrow> bool" where
  "ok res = (200 \<le> status res \<and> status res \<le> 299)"

record request =
  rq_url :: string
  rq_disaster :: string
  rq_horizonHours :: nat
  rq_options :: jsval
  rq_signal :: nat

text \<open>
  The hook's state: \<^verbatim>\<open>abortControllers.current\<close>, a table from keys to controllers. A
  controller is known by a number, \<open>fresh\<close> being the next one; \<open>aborted\<close> lists the
  controllers whose \<^verbatim>\<open>abort()\<close> has been called and \<open>calls\<close> the \<^verbatim>\<open>fetch\<close> calls made,
  in order. The last three are history, not fields of the program.
\<close>

record engine =
  abortControllers :: "(string \<times> nat) list"
  fresh :: nat
  aborted :: "nat list"
  calls :: "request list"

text \<open>
  The hook's parameters. \<^verbatim>\<open>modelUrls\<close> is a plain object, given by its own properties, or
  a falsy value (\<open>None\<close>).
\<close>

record config =
  mode :: string
  apiBase :: string
  modelUrls :: "(string \<times> jsval) list option"

text \<open>
  The properties every plain object inherits from \<^verbatim>\<open>Object.prototype\<close>; all are truthy
  (functions, and the prototype itself for \<^verbatim>\<open>__proto__\<close>).
\<close>

definition object_prototype_keys :: "string list" where
  "object_prototype_keys =
     [''constructor'', ''hasOwnProperty'', ''isPrototypeOf'', ''propertyIsEnumerable'',
      ''toLocaleString'', ''toString'', ''valueOf'', ''__proto__'', ''__defineGetter__'',
      ''__defineSetter__'', ''__lookupGetter__'', ''__lookupSetter__'']"

text \<open>
  \<^verbatim>\<open>!modelUrls || !modelUrls[disaster]\<close> is false: the lookup finds an own property first,
  an inherited one otherwise.
\<close>

definition has_model :: "(string \<times> jsval) list option \<Rightarrow> string \<Rightarrow> bool" where
  "has_model urls d =
     (case urls of
        None \<Rightarrow> False
      | Some own \<Rightarrow>
          (case map_of own d of
             Some u \<Rightarrow> truthy u
           | None \<Rightarrow> d \<in> set object_prototype_keys))"

text \<open>\<^verbatim>\<open>`${disaster}-${horizonHours}`\<close>.\<close>

definition request_key :: "string \<Rightarrow> nat \<Rightarrow> string" where
  "request_key d h = d @ ''-'' @ show_nat h"

text \<open>\<^verbatim>\<open>infer\<close> up to its \<^verbatim>\<open>await fetch(...)\<close>: a new controller is registered, the call is made.\<close>

definition infer_issue :: "string \<Rightarrow> string \<Rightarrow> nat \<Rightarrow> jsval \<Rightarrow> engine \<Rightarrow> engine" where
  "infer_issue api d h options e =
     e\<lparr>abortControllers := AList.update (request_key d h) (fresh e) (abortControllers e),
       fresh := Suc (fresh e),
       calls := calls e @
         [\<lparr>rq_url = api @ ''/api/ai/infer'', rq_disaster = d, rq_horizonHours = h,
           rq_options = options, rq_signal = fresh e\<rparr>]\<rparr>"

text \<open>The \<^verbatim>\<open>try\<close> block of \<^verbatim>\<open>infer\<close> once \<^verbatim>\<open>fetch\<close> has settled.\<close>

definition infer_result :: "outcome \<Rightarrow> js_error + jsval" where
  "infer_result out =
     (case out of
        Rejected err \<Rightarrow> Inl err
      | Responded res \<Rightarrow>
          if \<not> ok res then
            bind_r (body_text res) (\<lambda>txt.
              Inl (Error (''Inference request failed: '' @ show_nat (status res) @ '' '' @ txt)))
          else
            bind_r (body_json res) (\<lambda>json.
            bind_r (get_prop ''geojson'' json) (\<lambda>g.
              Inr (if truthy g then g else json))))"

text \<open>The \<^verbatim>\<open>finally\<close> block: \<^verbatim>\<open>delete abortControllers.current[key]\<close>.\<close>

definition infer_finally :: "string \<Rightarrow> nat \<Rightarrow> engine \<Rightarrow> engine" where
  "infer_finally d h e =
     e\<lparr>abortControllers := AList.delete (request_key d h) (abortControllers e)\<rparr>"

text \<open>
  \<^verbatim>\<open>infer(disaster, horizonHours, options)\<close> as a whole, \<open>out\<close> being what its \<^verbatim>\<open>fetch\<close>
  settles with: the engine afterwards, and the value resolved with or the error rejected with.
\<close>

definition infer ::
  "config \<Rightarrow> string \<Rightarrow> nat \<Rightarrow> jsval \<Rightarrow> outcome \<Rightarrow> engine \<Rightarrow> engine \<times> (js_error + jsval)" where
  "infer cfg d h options out e =
     (if mode cfg = ''local'' then
        (e,
         if \<not> has_model (modelUrls cfg) d
         then Inl (Error (''No local model URL supplied for disaster: '' @ d))
         else Inr (JObj [(''type'', JStr ''FeatureCollection''), (''features'', JArr [])]))
      else (infer_finally d h (infer_issue (apiBase cfg) d h options e), infer_result out))"

text \<open>\<^verbatim>\<open>cancel(disaster, horizonHours)\<close>.\<close>

definition cancel :: "string \<Rightarrow> nat \<Rightarrow> engine \<Rightarrow> engine" where
  "cancel d h e =
     (case map_of (abortControllers e) (request_key d h) of
        None \<Rightarrow> e
      | Some c \<Rightarrow> e\<lparr>aborted := aborted e @ [c]\<rparr>)"

text \<open>The hook's cleanup on unmount: every registered controller is aborted, the table reset.\<close>

definition cleanup :: "engine \<Rightarrow> engine" where
  "cleanup e = e\<lparr>aborted := aborted e @ map snd (abortControllers e), abortControllers := []\<rparr>"

section \<open>The poll cycle\<close>

text \<open>
  \<^verbatim>\<open>predictions\<close> and \<^verbatim>\<open>newPred\<close>: for each disaster an object from horizons to feature
  arrays.
\<close>

type_synonym snapshot = "disaster \<Rightarrow> nat \<rightharpoonup> jsval list"

definition empty_snapshot :: snapshot where
  "empty_snapshot = (\<lambda>d. Map.empty)"

definition disasters :: "disaster list" where
  "disasters = [fires, floods, landslides]"

text \<open>The cells in the order the two nested loops visit them.\<close>

definition grid :: "nat list \<Rightarrow> (disaster \<times> nat) list" where
  "grid hoursList = concat (map (\<lambda>d. map (\<lambda>h. (d, h)) hoursList) disasters)"

text \<open>\<^verbatim>\<open>geojson && Array.isArray(geojson.features) ? geojson.features : []\<close>.\<close>

definition features_of :: "jsval \<Rightarrow> jsval list" where
  "features_of geojson =
     (if truthy geojson then
        (case get_prop ''features'' geojson of Inr (JArr fs) \<Rightarrow> fs | _ \<Rightarrow> [])
      else [])"

text \<open>The inner \<^verbatim>\<open>try\<close>/\<^verbatim>\<open>catch\<close>: the features of a resolved call, none for a rejected one.\<close>

definition cell_features :: "js_error + jsval \<Rightarrow> jsval list" where
  "cell_features r = (case r of Inl err \<Rightarrow> [] | Inr geojson \<Rightarrow> features_of geojson)"

text \<open>\<^verbatim>\<open>newPred[d][h] = features\<close>.\<close>

definition store :: "disaster \<Rightarrow> nat \<Rightarrow> jsval list \<Rightarrow> snapshot \<Rightarrow> snapshot" where
  "store d h fs np = np(d := (np d)(h \<mapsto> fs))"

definition realtime :: jsval where
  "realtime = JObj [(''realtime'', JBool True)]"

text \<open>The engine as the overlay configures it.\<close>

definition overlay_config :: "string \<Rightarrow> config" where
  "overlay_config api = \<lparr>mode = ''orchestrator'', apiBase = api, modelUrls = Some []\<rparr>"

text \<open>
  A cycle that nothing interrupts, against a backend that answers the request for a cell with
  \<open>backend d h\<close>: the loop over the cells, then the publication if still mounted.
\<close>

fun fetch_cells ::
  "string \<Rightarrow> (string \<Rightarrow> nat \<Rightarrow> outcome) \<Rightarrow> (disaster \<times> nat) list \<Rightarrow> engine \<times> snapshot
     \<Rightarrow> engine \<times> snapshot" where
  "fetch_cells api backend [] s = s"
| "fetch_cells api backend ((d, h) # cells) (e, newPred) =
     (case infer (overlay_config api) (disaster_name d) h realtime
             (backend (disaster_name d) h) e of
        (e', r) \<Rightarrow> fetch_cells api backend cells (e', store d h (cell_features r) newPred))"

definition fetchAll ::
  "string \<Rightarrow> (string \<Rightarrow> nat \<Rightarrow> outcome) \<Rightarrow> nat list \<Rightarrow> bool \<Rightarrow> engine \<times> snapshot
     \<Rightarrow> engine \<times> snapshot" where
  "fetchAll api backend hoursList mounted s =
     (case fetch_cells api backend (grid hoursList) (fst s, empty_snapshot) of
        (e', newPred) \<Rightarrow> (e', if mounted then newPred else snd s))"

section \<open>The overlay's effect, event by event\<close>

text \<open>
  \<^verbatim>\<open>fetchAll\<close> is suspended at each \<^verbatim>\<open>await infer(...)\<close>, and between two suspensions
  anything else may run: the interval's next firing, the effect's cleanup, the unmount. A
  suspended run of \<^verbatim>\<open>fetchAll\<close> is a \<open>cycle\<close>: the \<^verbatim>\<open>mounted\<close> variable it closes over
  (named by the number of the effect run that declared it), the \<^verbatim>\<open>hoursList\<close> it iterates,
  its \<^verbatim>\<open>newPred\<close>, the cell awaited and the cells still to visit. \<open>cy_outs\<close> is history: what
  the cycle's calls settled with so far.
\<close>

record cycle =
  cy_epoch :: nat
  cy_hours :: "nat list"
  cy_outs :: "outcome list"
  cy_newPred :: snapshot
  cy_cell :: "disaster \<times> nat"
  cy_rest :: "(disaster \<times> nat) list"

text \<open>A call of \<^verbatim>\<open>setPredictions\<close>, with the cycle that made it (history).\<close>

record publication =
  pub_cycle :: nat
  pub_hours :: "nat list"
  pub_outs :: "outcome list"
  pub_snapshot :: snapshot

text \<open>
  The component: the engine, the \<^verbatim>\<open>predictions\<close> state, the effect run whose \<^verbatim>\<open>mounted\<close> is
  \<^verbatim>\<open>true\<close> and whose interval is set (\<open>live\<close>, with its \<^verbatim>\<open>hoursList\<close>), the suspended
  cycles by number; \<open>publications\<close>, \<open>epochs\<close> and \<open>started\<close> are history and counters.
\<close>

record world =
  eng :: engine
  predictions :: snapshot
  publications :: "publication list"
  live :: "(nat \<times> nat list) option"
  epochs :: nat
  cycles :: "(nat \<times> cycle) list"
  started :: nat

definition initial_engine :: engine where
  "initial_engine = \<lparr>abortControllers = [], fresh = 0, aborted = [], calls = []\<rparr>"

definition initial_world :: world where
  "initial_world =
     \<lparr>eng = initial_engine, predictions = empty_snapshot, publications = [], live = None,
      epochs = 0, cycles = [], started = 0\<rparr>"

text \<open>The value of the \<^verbatim>\<open>mounted\<close> variable of effect run \<open>ep\<close>.\<close>

definition mounted :: "nat \<Rightarrow> world \<Rightarrow> bool" where
  "mounted ep w = (case live w of None \<Rightarrow> False | Some (e, hs) \<Rightarrow> e = ep)"

text \<open>
  \<^verbatim>\<open>fetchAll\<close> from the head of its loop to its next suspension: with no cell left,
  \<^verbatim>\<open>if (!mounted) return; setPredictions(newPred)\<close>; else the next call is issued.
\<close>

fun advance ::
  "string \<Rightarrow> nat \<Rightarrow> nat \<Rightarrow> nat list \<Rightarrow> outcome list \<Rightarrow> snapshot \<Rightarrow> (disaster \<times> nat) list
     \<Rightarrow> world \<Rightarrow> world" where
  "advance api cid ep hs outs newPred [] w =
     (if mounted ep w then
        w\<lparr>cycles := AList.delete cid (cycles w),
          predictions := newPred,
          publications := publications w @
            [\<lparr>pub_cycle = cid, pub_hours = hs, pub_outs = outs, pub_snapshot = newPred\<rparr>]\<rparr>
      else w\<lparr>cycles := AList.delete cid (cycles w)\<rparr>)"
| "advance api cid ep hs outs newPred ((d, h) # rest) w =
     w\<lparr>eng := infer_issue api (disaster_name d) h realtime (eng w),
       cycles := AList.update cid
         \<lparr>cy_epoch = ep, cy_hours = hs, cy_outs = outs, cy_newPred = newPred,
          cy_cell = (d, h), cy_rest = rest\<rparr> (cycles w)\<rparr>"

text \<open>A call of \<^verbatim>\<open>fetchAll()\<close> by the live effect run (none is made without one).\<close>

definition start_cycle :: "string \<Rightarrow> world \<Rightarrow> world" where
  "start_cycle api w =
     (case live w of
        None \<Rightarrow> w
      | Some (ep, hs) \<Rightarrow>
          advance api (started w) ep hs [] empty_snapshot (grid hs)
            (w\<lparr>started := Suc (started w)\<rparr>))"

text \<open>
  The events: the effect runs with \<^verbatim>\<open>enabled\<close> true (\<open>Enable hoursList\<close>), the interval
  fires, the call awaited by a cycle settles, the effect's cleanup runs (\<^verbatim>\<open>enabled\<close> turned
  false, or a dependency changed), the component unmounts (the effect's cleanup and the
  hook's).
\<close>

datatype event = Enable "nat list" | Tick | Settle nat outcome | Disable | Unmount

fun step :: "string \<Rightarrow> event \<Rightarrow> world \<Rightarrow> world" where
  "step api (Enable hs) w =
     start_cycle api (w\<lparr>live := Some (epochs w, hs), epochs := Suc (epochs w)\<rparr>)"
| "step api Tick w = start_cycle api w"
| "step api (Settle cid out) w =
     (case map_of (cycles w) cid of
        None \<Rightarrow> w
      | Some c \<Rightarrow>
          advance api cid (cy_epoch c) (cy_hours c) (cy_outs c @ [out])
            (store (fst (cy_cell c)) (snd (cy_cell c)) (cell_features (infer_result out))
               (cy_newPred c))
            (cy_rest c)
            (w\<lparr>eng := infer_finally (disaster_name (fst (cy_cell c))) (snd (cy_cell c)) (eng w)\<rparr>))"
| "step api Disable w = w\<lparr>live := None\<rparr>"
| "step api Unmount w = w\<lparr>live := None, eng := cleanup (eng w)\<rparr>"

definition run :: "string \<Rightarrow> event list \<Rightarrow> world \<Rightarrow> world" where
  "run api evs w = fold (step api) evs w"

text \<open>The snapshot a cycle builds from what its calls settle with, cell by cell.\<close>

definition build :: "((disaster \<times> nat) \<times> outcome) list \<Rightarrow> snapshot" where
  "build settled =
     fold (\<lambda>(c, out). store (fst c) (snd c) (cell_features (infer_result out))) settled
       empty_snapshot"

text \<open>A publication is what its cycle's loop built, once every cell had settled.\<close>

definition built_cycle :: "publication \<Rightarrow> bool" where
  "built_cycle p =
     (length (pub_outs p) = length (grid (pub_hours p))
      \<and> pub_snapshot p = build (zip (grid (pub_hours p)) (pub_outs p)))"

text \<open>The calls the suspended cycles have still to make.\<close>

definition pending :: "world \<Rightarrow> nat" where
  "pending w = sum_list (map (\<lambda>(cid, c). length (cy_rest c)) (cycles w))"

text \<open>
  The whole overlay: for each horizon (with its index) and each disaster, the features
  \<^verbatim>\<open>(predictions[d] && predictions[d][h]) || []\<close> of the cell, rendered in order.
\<close>

definition cell_of :: "snapshot \<Rightarrow> disaster \<Rightarrow> nat \<Rightarrow> jsval list" where
  "cell_of preds d h = (case preds d h of None \<Rightarrow> [] | Some fs \<Rightarrow> fs)"

definition render_overlay ::
  "(jsval \<Rightarrow> jsnum) \<Rightarrow> bool \<Rightarrow> nat list \<Rightarrow> snapshot \<Rightarrow> js_error + primitive list list list" where
  "render_overlay coerce enabled hoursList preds =
     (if \<not> enabled then Inr []
      else
        map_r (\<lambda>(horizonIdx, h).
            map_r (\<lambda>d. render_cell coerce (disasterStyle d) horizonIdx (cell_of preds d h))
              disasters)
          (zip [0..<length hoursList] hoursList))"

section \<open>Notions used to state the properties\<close>

text \<open>
  Well-formed GeoJSON, as the feed is meant to carry it: a position \<^verbatim>\<open>[lon, lat, ...]\<close>
  (longitude, latitude and whatever follows them, such as an elevation), a linear ring (an
  array of positions), a feature collection.
\<close>

definition position :: "real \<times> real \<times> jsval list \<Rightarrow> jsval" where
  "position p = JArr (JNum (fst p) # JNum (fst (snd p)) # snd (snd p))"

definition linear_ring :: "(real \<times> real \<times> jsval list) list \<Rightarrow> jsval" where
  "linear_ring ps = JArr (map position ps)"

definition FeatureCollection :: "jsval list \<Rightarrow> jsval" where
  "FeatureCollection fs = JObj [(''type'', JStr ''FeatureCollection''), (''features'', JArr fs)]"

text \<open>
  A publication of a whole cycle: every cell of the cycle's grid has settled, and the entry
  of a disaster and a horizon is the features of what the cycle's call for that cell settled
  with (the last such call, should the horizon list repeat a horizon), none where it
  failed; a horizon that is not in the list has no entry.
\<close>

definition whole_cycle :: "publication \<Rightarrow> bool" where
  "whole_cycle p =
     (length (pub_outs p) = length (grid (pub_hours p))
      \<and> pub_snapshot p =
          (\<lambda>d h. map_option (\<lambda>out. cell_features (infer_result out))
                   (map_of (rev (zip (grid (pub_hours p)) (pub_outs p))) (d, h))))"

text \<open>A request without the controller it carries, and the key of a cell.\<close>

definition call_of :: "request \<Rightarrow> string \<times> string \<times> nat \<times> jsval" where
  "call_of r = (rq_url r, rq_disaster r, rq_horizonHours r, rq_options r)"

definition cell_key :: "disaster \<times> nat \<Rightarrow> string" where
  "cell_key c = request_key (disaster_name (fst c)) (snd c)"

text \<open>
  A suspended cycle is where its loop says it is: \<^verbatim>\<open>newPred\<close> holds the cells settled so
  far and no other, the awaited cell and the rest are the cells that follow them.
\<close>

definition cycle_ok :: "cycle \<Rightarrow> bool" where
  "cycle_ok c =
     (cy_newPred c = build (zip (grid (cy_hours c)) (cy_outs c))
      \<and> drop (length (cy_outs c)) (grid (cy_hours c)) = cy_cell c # cy_rest c)"

definition adv_ok ::
  "nat list \<Rightarrow> outcome list \<Rightarrow> snapshot \<Rightarrow> (disaster \<times> nat) list \<Rightarrow> bool" where
  "adv_ok hs outs np rest =
     (np = build (zip (grid hs) outs) \<and> drop (length outs) (grid hs) = rest
      \<and> length outs \<le> length (grid hs))"

text \<open>The invariant of the component's state.\<close>

definition consistent :: "world \<Rightarrow> bool" where
  "consistent w =
     ((\<forall>p \<in> set (publications w). built_cycle p \<and> pub_cycle p < started w)
      \<and> (\<forall>(cid, c) \<in> set (cycles w).
            cycle_ok c \<and> cid < started w \<and> cid \<notin> pub_cycle ` set (publications w))
      \<and> distinct (map pub_cycle (publications w))
      \<and> predictions w =
          (if publications w = [] then empty_snapshot
           else pub_snapshot (last (publications w))))"

fun is_Enable :: "event \<Rightarrow> bool" where
  "is_Enable (Enable hs) = True"
| "is_Enable ev = False"

text \<open>
  \<open>w'\<close> comes after \<open>w\<close> with the effect stopped: nothing published, no cycle started, and
  no more calls made than the suspended cycles of \<open>w\<close> had left.
\<close>

definition quiet_le :: "world \<Rightarrow> world \<Rightarrow> bool" where
  "quiet_le w' w =
     (live w' = None \<and> publications w' = publications w \<and> predictions w' = predictions w
      \<and> started w' = started w
      \<and> length (calls (eng w')) + pending w' \<le> length (calls (eng w)) + pending w)"

section \<open>Properties of the rendering\<close>

lemma bind_r_Inr [simp]: "bind_r (Inr v) f = f v"
  by (simp add: bind_r_def)

lemma bind_r_Inl [simp]: "bind_r (Inl e) f = Inl e"
  by (simp add: bind_r_def)

lemma map_r_append:
  "map_r f (xs @ ys) =
     (case map_r f xs of
        Inl e \<Rightarrow> Inl e
      | Inr us \<Rightarrow> (case map_r f ys of Inl e \<Rightarrow> Inl e | Inr vs \<Rightarrow> Inr (us @ vs)))"
  by (induction xs) (auto split: sum.splits)

lemma truthy_of_geometry:
  "get_prop ''geometry'' feat = Inr geom \<Longrightarrow> truthy geom \<Longrightarrow> truthy feat"
  by (cases feat) auto

lemma truthy_of_type: "get_prop ''type'' geom = Inr (JStr s) \<Longrightarrow> truthy geom"
  by (cases geom) auto

text \<open>The vector lies on the sphere of radius \<open>1 + alt\<close>.\<close>

lemma latLongToVector3_on_sphere:
  "(case latLongToVector3 lat lon alt of (x, y, z) \<Rightarrow> x\<^sup>2 + y\<^sup>2 + z\<^sup>2) = (1 + alt)\<^sup>2"
proof -
  define r where "r = 1 + alt"
  define p where "p = (90 - lat) * (pi / 180)"
  define t where "t = (lon + 180) * (pi / 180)"
  have "(- r * sin p * cos t)\<^sup>2 + (r * cos p)\<^sup>2 + (r * sin p * sin t)\<^sup>2
      = r\<^sup>2 * ((sin p)\<^sup>2 * ((cos t)\<^sup>2 + (sin t)\<^sup>2) + (cos p)\<^sup>2)"
    by algebra
  also have "\<dots> = r\<^sup>2" by simp
  finally have "(- r * sin p * cos t)\<^sup>2 + (r * cos p)\<^sup>2 + (r * sin p * sin t)\<^sup>2 = r\<^sup>2" .
  moreover have "latLongToVector3 lat lon alt =
      (- r * sin p * cos t, r * cos p, r * sin p * sin t)"
    unfolding latLongToVector3_def Let_def r_def p_def t_def by (rule refl)
  ultimately show ?thesis by (simp only: prod.case r_def)
qed

lemma point_size_num: "point_size coerce (JNum r) = Fin (0.006 + min 0.03 (r * 0.08))"
  by (simp add: point_size_def)

lemma point_altitude_table: "point_altitude (disasterStyle d) = 1 + altOffset (disasterStyle d)"
  by (cases d) (simp_all add: point_altitude_def)

lemma effective_risk_num:
  "get_prop ''properties'' feat = Inr props \<Longrightarrow> get_prop ''risk'' props = Inr (JNum r)
     \<Longrightarrow> effective_risk feat = JNum r"
  by (cases props) (auto simp: effective_risk_def)

lemma effective_risk_absent:
  "get_prop ''properties'' feat = Inr props \<Longrightarrow>
   nullish props \<or> get_prop ''risk'' props = Inr JUndefined \<or> get_prop ''risk'' props = Inr JNull
     \<Longrightarrow> effective_risk feat = JNum 0.5"
  by (auto simp: effective_risk_def)

lemma render_point:
  assumes "get_prop ''geometry'' feat = Inr geom"
    and "get_prop ''type'' geom = Inr (JStr ''Point'')"
    and "get_prop ''coordinates'' geom = Inr (JArr (lon # lat # rest))"
  shows "render_feature coerce st idx feat =
           Inr [PointMesh lat lon (point_size coerce (effective_risk feat)) (color st)
                  (point_altitude st)]"
  using assms truthy_of_type [OF assms(2)]
    truthy_of_geometry [OF assms(1) truthy_of_type [OF assms(2)]]
  by (simp add: render_feature_def GeoPoint_def)

lemma map_r_positions:
  "map_r (\<lambda>p. bind_r (destructure2 p) (\<lambda>(lon, lat). Inr (Vertex lat lon alt))) (map position ps)
     = Inr (map (\<lambda>(lon, lat, more). Vertex (JNum lat) (JNum lon) alt) ps)"
  by (induction ps) (auto simp: position_def split: prod.splits)

lemma GeoPolygon_pts_ring:
  assumes "ps \<noteq> []"
  shows "GeoPolygon_pts (JArr (linear_ring ps # holes)) alt =
           Inr (map (\<lambda>(lon, lat, more). Vertex (JNum lat) (JNum lon) alt) ps)"
proof -
  obtain p ps' where ps: "ps = p # ps'" using assms by (cases ps) auto
  show ?thesis
    unfolding GeoPolygon_pts_def linear_ring_def
    using map_r_positions [of alt ps] by (simp add: ps position_def)
qed

lemma GeoPolygon_ring:
  assumes "ps \<noteq> []"
  shows "GeoPolygon (JArr (linear_ring ps # holes)) col opac alt =
           Inr [LineStrip (map (\<lambda>(lon, lat, more). Vertex (JNum lat) (JNum lon) alt) ps) col opac]"
  using assms by (simp add: GeoPolygon_def GeoPolygon_pts_ring)

lemma GeoPolygon_not_array: "\<not> isArray cs \<Longrightarrow> GeoPolygon cs col opac alt = Inr []"
  by (simp add: GeoPolygon_def GeoPolygon_pts_def)

lemma render_polygon:
  assumes "get_prop ''geometry'' feat = Inr geom"
    and "get_prop ''type'' geom = Inr (JStr ''Polygon'')"
    and "get_prop ''coordinates'' geom = Inr cs"
  shows "render_feature coerce st idx feat =
           GeoPolygon cs (color st) 0.22 (0.01 + real idx * 0.002)"
  using assms truthy_of_type [OF assms(2)]
    truthy_of_geometry [OF assms(1) truthy_of_type [OF assms(2)]]
  by (simp add: render_feature_def)

lemma render_multipolygon:
  assumes "get_prop ''geometry'' feat = Inr geom"
    and "get_prop ''type'' geom = Inr (JStr ''MultiPolygon'')"
    and "get_prop ''coordinates'' geom = Inr cs"
  shows "render_feature coerce st idx feat =
           bind_r (get_index 0 cs) (\<lambda>c. GeoPolygon c (color st) 0.22 (0.01 + real idx * 0.002))"
  using assms truthy_of_type [OF assms(2)]
    truthy_of_geometry [OF assms(1) truthy_of_type [OF assms(2)]]
  by (simp add: render_feature_def)

lemma render_other_type:
  assumes "get_prop ''geometry'' feat = Inr geom"
    and "get_prop ''type'' geom = Inr ty"
    and "ty \<noteq> JStr ''Point''" and "ty \<noteq> JStr ''Polygon''" and "ty \<noteq> JStr ''MultiPolygon''"
  shows "render_feature coerce st idx feat = Inr []"
  using assms by (simp add: render_feature_def)

text \<open>
  C3, as the code has it. A Point feature whose coordinates are an array \<^verbatim>\<open>[lon, lat, ...]\<close>
  yields exactly one primitive, at altitude \<^verbatim>\<open>1 + style.altOffset\<close>, of size
  \<^verbatim>\<open>0.006 + min(0.03, risk * 0.08)\<close>, where \<open>risk\<close> is the feature's numeric risk, or 0.5
  when the properties or the risk are missing. For a risk of 0.9 the size is 0.036: the
  minimum caps the second summand at 0.03.
\<close>

theorem point_feature_primitive:
  assumes "get_prop ''geometry'' feat = Inr geom"
    and "get_prop ''type'' geom = Inr (JStr ''Point'')"
    and "get_prop ''coordinates'' geom = Inr (JArr (lon # lat # rest))"
    and "get_prop ''properties'' feat = Inr props"
    and "get_prop ''risk'' props = Inr (JNum risk)
         \<or> risk = 0.5 \<and> (nullish props \<or> get_prop ''risk'' props = Inr JUndefined)"
  shows "render_feature coerce (disasterStyle d) idx feat =
           Inr [PointMesh lat lon (Fin (0.006 + min 0.03 (risk * 0.08)))
                  (color (disasterStyle d)) (1 + altOffset (disasterStyle d))]
         \<and> (risk = 0.9 \<longrightarrow>
              render_feature coerce (disasterStyle d) idx feat =
                Inr [PointMesh lat lon (Fin 0.036)
                       (color (disasterStyle d)) (1 + altOffset (disasterStyle d))])"
proof -
  have "effective_risk feat = JNum risk"
    using assms(5) effective_risk_num [OF assms(4)] effective_risk_absent [OF assms(4)]
    by auto
  then have eq: "render_feature coerce (disasterStyle d) idx feat =
           Inr [PointMesh lat lon (Fin (0.006 + min 0.03 (risk * 0.08)))
                  (color (disasterStyle d)) (1 + altOffset (disasterStyle d))]"
    using render_point [OF assms(1,2,3), of coerce "disasterStyle d" idx]
    by (simp add: point_altitude_table point_size_num)
  moreover have "risk = 0.9 \<Longrightarrow> 0.006 + min 0.03 (risk * 0.08) = 0.036"
    by simp
  ultimately show ?thesis by simp
qed

theorem point_feature_primitive_witness:
  "render_feature (\<lambda>v. NaN) (disasterStyle fires) 0
     (JObj [(''geometry'', JObj [(''type'', JStr ''Point''),
                                 (''coordinates'', JArr [JNum 10, JNum 20])]),
            (''properties'', JObj [(''risk'', JNum 0.9)])])
   = Inr [PointMesh (JNum 20) (JNum 10) (Fin 0.036) ''#ff6600'' 1.02]"
  using point_feature_primitive
    [where feat = "JObj [(''geometry'', JObj [(''type'', JStr ''Point''),
                                 (''coordinates'', JArr [JNum 10, JNum 20])]),
            (''properties'', JObj [(''risk'', JNum 0.9)])]"
      and geom = "JObj [(''type'', JStr ''Point''), (''coordinates'', JArr [JNum 10, JNum 20])]"
      and lon = "JNum 10" and lat = "JNum 20" and rest = "[]"
      and props = "JObj [(''risk'', JNum 0.9)]" and risk = "0.9"
      and coerce = "\<lambda>v. NaN" and d = fires and idx = 0]
  by simp

text \<open>
  Geometry that is skipped: a feature whose geometry type is none of Point, Polygon and
  MultiPolygon yields no primitive and no error; so does a Polygon whose coordinates are not
  an array (missing ones included), and a MultiPolygon whose coordinates are an array whose
  first element is missing or not an array.
\<close>

lemma unsupported_geometry_skipped:
  assumes "get_prop ''geometry'' feat = Inr geom" and "get_prop ''type'' geom = Inr ty"
  shows "(ty \<noteq> JStr ''Point'' \<and> ty \<noteq> JStr ''Polygon'' \<and> ty \<noteq> JStr ''MultiPolygon''
            \<longrightarrow> render_feature coerce st idx feat = Inr [])
       \<and> (ty = JStr ''Polygon'' \<and> get_prop ''coordinates'' geom = Inr cs \<and> \<not> isArray cs
            \<longrightarrow> render_feature coerce st idx feat = Inr [])
       \<and> (ty = JStr ''MultiPolygon'' \<and> get_prop ''coordinates'' geom = Inr (JArr polys)
            \<and> (polys = [] \<or> \<not> isArray (hd polys))
            \<longrightarrow> render_feature coerce st idx feat = Inr [])"
proof (intro conjI impI)
  assume "ty \<noteq> JStr ''Point'' \<and> ty \<noteq> JStr ''Polygon'' \<and> ty \<noteq> JStr ''MultiPolygon''"
  then show "render_feature coerce st idx feat = Inr []"
    using render_other_type [OF assms] by simp
next
  assume a: "ty = JStr ''Polygon'' \<and> get_prop ''coordinates'' geom = Inr cs \<and> \<not> isArray cs"
  then have "get_prop ''type'' geom = Inr (JStr ''Polygon'')" using assms(2) by simp
  from render_polygon [OF assms(1) this] a show "render_feature coerce st idx feat = Inr []"
    by (simp add: GeoPolygon_not_array)
next
  assume a: "ty = JStr ''MultiPolygon'' \<and> get_prop ''coordinates'' geom = Inr (JArr polys)
            \<and> (polys = [] \<or> \<not> isArray (hd polys))"
  then have t: "get_prop ''type'' geom = Inr (JStr ''MultiPolygon'')" using assms(2) by simp
  have "bind_r (get_index 0 (JArr polys))
          (\<lambda>c. GeoPolygon c (color st) 0.22 (0.01 + real idx * 0.002)) = Inr []"
    using a by (cases polys) (simp_all add: GeoPolygon_not_array)
  then show "render_feature coerce st idx feat = Inr []"
    using render_multipolygon [OF assms(1) t, of "JArr polys"] a by simp
qed

text \<open>
  C5. The code breaks the claim on structurally invalid coordinates. A LineString is
  skipped, and so is a Polygon without coordinates (the guard of \<^verbatim>\<open>GeoPolygon\<close>); but a
  Point without coordinates makes the render throw a \<^verbatim>\<open>TypeError\<close> (the destructuring of
  \<^verbatim>\<open>undefined\<close>, which nothing guards), and so do a Polygon whose coordinates are the
  empty array (\<^verbatim>\<open>coordinates[0][0]\<close>) and a MultiPolygon without coordinates
  (\<^verbatim>\<open>geom.coordinates[0]\<close>); a Point whose coordinates are the empty array is drawn, with
  undefined latitude and longitude.
\<close>

theorem malformed_coordinates_throw:
  "render_feature (\<lambda>v. NaN) (disasterStyle fires) 0
     (JObj [(''geometry'', JObj [(''type'', JStr ''LineString''),
                                 (''coordinates'', JArr [JArr [JNum 0, JNum 0]])])]) = Inr []
   \<and> render_feature (\<lambda>v. NaN) (disasterStyle fires) 0
       (JObj [(''geometry'', JObj [(''type'', JStr ''Polygon'')])]) = Inr []
   \<and> render_feature (\<lambda>v. NaN) (disasterStyle fires) 0
       (JObj [(''geometry'', JObj [(''type'', JStr ''Point'')])]) = Inl TypeError
   \<and> render_feature (\<lambda>v. NaN) (disasterStyle fires) 0
       (JObj [(''geometry'', JObj [(''type'', JStr ''Polygon''), (''coordinates'', JArr [])])])
     = Inl TypeError
   \<and> render_feature (\<lambda>v. NaN) (disasterStyle fires) 0
       (JObj [(''geometry'', JObj [(''type'', JStr ''MultiPolygon'')])]) = Inl TypeError
   \<and> render_feature (\<lambda>v. NaN) (disasterStyle fires) 0
       (JObj [(''geometry'', JObj [(''type'', JStr ''Point''), (''coordinates'', JArr [])])])
     = Inr [PointMesh JUndefined JUndefined (Fin 0.036) ''#ff6600'' 1.02]
   \<and> render_cell (\<lambda>v. NaN) (disasterStyle fires) 0
       [JObj [(''geometry'', JObj [(''type'', JStr ''Point''),
                                   (''coordinates'', JArr [JNum 10, JNum 20])])],
        JObj [(''geometry'', JObj [(''type'', JStr ''Point'')])]]
     = Inl TypeError"
  by (simp add: render_cell_def render_feature_def GeoPoint_def GeoPolygon_def
      GeoPolygon_pts_def point_size_def effective_risk_def point_altitude_def)

text \<open>
  C6, as the code has it. The risk used for the size is 0.5 when the properties, or the risk
  in them, are missing or \<^verbatim>\<open>null\<close>; a numeric risk is used as it is, inside \<open>[0, 1]\<close> or
  not, and the size is \<^verbatim>\<open>0.006 + min(0.03, risk * 0.08)\<close>.
\<close>

theorem effective_risk_passthrough:
  assumes "get_prop ''properties'' feat = Inr props"
  shows "(nullish props \<or> get_prop ''risk'' props = Inr JUndefined
            \<or> get_prop ''risk'' props = Inr JNull
            \<longrightarrow> effective_risk feat = JNum 0.5)
       \<and> (get_prop ''risk'' props = Inr (JNum r)
            \<longrightarrow> effective_risk feat = JNum r
                \<and> point_size coerce (effective_risk feat) = Fin (0.006 + min 0.03 (r * 0.08)))"
  using effective_risk_num [OF assms] effective_risk_absent [OF assms]
  by (auto simp: point_size_num)

theorem effective_risk_passthrough_witness:
  "effective_risk (JObj [(''properties'', JObj [(''name'', JStr ''x'')])]) = JNum 0.5
   \<and> effective_risk (JObj [(''properties'', JObj [(''risk'', JNum 2)])]) = JNum 2
   \<and> point_size (\<lambda>v. NaN) (effective_risk (JObj [(''properties'', JObj [(''risk'', JNum 2)])]))
       = Fin 0.036"
  using effective_risk_passthrough
    [where feat = "JObj [(''properties'', JObj [(''name'', JStr ''x'')])]"
      and props = "JObj [(''name'', JStr ''x'')]"]
    effective_risk_passthrough
    [where feat = "JObj [(''properties'', JObj [(''risk'', JNum 2)])]"
      and props = "JObj [(''risk'', JNum 2)]" and r = 2 and coerce = "\<lambda>v. NaN"]
  by auto

text \<open>
  C6 as the spec states it fails: a risk of -1, outside \<open>[0, 1]\<close>, is not replaced by 0.5,
  and the size it gives is not the size 0.5 gives.
\<close>

theorem risk_out_of_range_counterexample:
  "effective_risk (JObj [(''properties'', JObj [(''risk'', JNum (- 1))])]) \<noteq> JNum 0.5
   \<and> point_size (\<lambda>v. NaN)
        (effective_risk (JObj [(''properties'', JObj [(''risk'', JNum (- 1))])]))
       = Fin (- 0.074)
   \<and> point_size (\<lambda>v. NaN) (JNum 0.5) = Fin 0.036"
  by (simp add: effective_risk_def point_size_def)

text \<open>
  C7. For a Polygon whose coordinates are a non-empty outer ring of positions followed by
  any holes, and for a MultiPolygon whose first polygon is such, the render is one line
  strip with one vertex per position of that outer ring, in order, at altitude
  \<^verbatim>\<open>0.01 + horizonIdx * 0.002\<close>; the holes and the other polygons are not looked at.
\<close>

theorem polygon_outer_ring:
  assumes "get_prop ''geometry'' feat = Inr geom" and "ps \<noteq> []"
    and "get_prop ''type'' geom = Inr (JStr ''Polygon'')
           \<and> get_prop ''coordinates'' geom = Inr (JArr (linear_ring ps # holes))
         \<or> get_prop ''type'' geom = Inr (JStr ''MultiPolygon'')
           \<and> get_prop ''coordinates'' geom = Inr (JArr (JArr (linear_ring ps # holes) # polys))"
  shows "render_feature coerce st idx feat =
           Inr [LineStrip
                  (map (\<lambda>(lon, lat, more). Vertex (JNum lat) (JNum lon) (0.01 + real idx * 0.002)) ps)
                  (color st) 0.22]"
  using assms(3)
proof
  assume a: "get_prop ''type'' geom = Inr (JStr ''Polygon'')
           \<and> get_prop ''coordinates'' geom = Inr (JArr (linear_ring ps # holes))"
  show ?thesis
    using render_polygon [OF assms(1) conjunct1 [OF a] conjunct2 [OF a]]
    by (simp add: GeoPolygon_ring [OF assms(2)])
next
  assume a: "get_prop ''type'' geom = Inr (JStr ''MultiPolygon'')
           \<and> get_prop ''coordinates'' geom = Inr (JArr (JArr (linear_ring ps # holes) # polys))"
  show ?thesis
    using render_multipolygon [OF assms(1) conjunct1 [OF a] conjunct2 [OF a]]
    by (simp add: GeoPolygon_ring [OF assms(2)])
qed

theorem polygon_outer_ring_witness:
  "render_feature (\<lambda>v. NaN) (disasterStyle floods) 2
     (JObj [(''geometry'', JObj [(''type'', JStr ''Polygon''),
        (''coordinates'',
           JArr [linear_ring [(0, 0, []), (1, 0, []), (1, 1, [JNum 5]), (0, 0, [])], linear_ring [(5, 5, [])]])])])
   = Inr [LineStrip
            [Vertex (JNum 0) (JNum 0) 0.014, Vertex (JNum 0) (JNum 1) 0.014,
             Vertex (JNum 1) (JNum 1) 0.014, Vertex (JNum 0) (JNum 0) 0.014]
            ''#0066ff'' 0.22]
   \<and> render_feature (\<lambda>v. NaN) (disasterStyle floods) 2
     (JObj [(''geometry'', JObj [(''type'', JStr ''MultiPolygon''),
        (''coordinates'',
           JArr [JArr [linear_ring [(0, 0, []), (1, 0, []), (1, 1, [JNum 5]), (0, 0, [])]],
                 JArr [linear_ring [(7, 7, []), (8, 8, [])]]])])])
   = Inr [LineStrip
            [Vertex (JNum 0) (JNum 0) 0.014, Vertex (JNum 0) (JNum 1) 0.014,
             Vertex (JNum 1) (JNum 1) 0.014, Vertex (JNum 0) (JNum 0) 0.014]
            ''#0066ff'' 0.22]"
  using polygon_outer_ring
    [where feat = "JObj [(''geometry'', JObj [(''type'', JStr ''Polygon''),
        (''coordinates'',
           JArr [linear_ring [(0, 0, []), (1, 0, []), (1, 1, [JNum 5]), (0, 0, [])], linear_ring [(5, 5, [])]])])]"
      and geom = "JObj [(''type'', JStr ''Polygon''),
        (''coordinates'',
           JArr [linear_ring [(0, 0, []), (1, 0, []), (1, 1, [JNum 5]), (0, 0, [])], linear_ring [(5, 5, [])]])]"
      and ps = "[(0, 0, []), (1, 0, []), (1, 1, [JNum 5]), (0, 0, [])]" and holes = "[linear_ring [(5, 5, [])]]"
      and coerce = "\<lambda>v. NaN" and st = "disasterStyle floods" and idx = 2]
    polygon_outer_ring
    [where feat = "JObj [(''geometry'', JObj [(''type'', JStr ''MultiPolygon''),
        (''coordinates'',
           JArr [JArr [linear_ring [(0, 0, []), (1, 0, []), (1, 1, [JNum 5]), (0, 0, [])]],
                 JArr [linear_ring [(7, 7, []), (8, 8, [])]]])])]"
      and geom = "JObj [(''type'', JStr ''MultiPolygon''),
        (''coordinates'',
           JArr [JArr [linear_ring [(0, 0, []), (1, 0, []), (1, 1, [JNum 5]), (0, 0, [])]],
                 JArr [linear_ring [(7, 7, []), (8, 8, [])]]])]"
      and ps = "[(0, 0, []), (1, 0, []), (1, 1, [JNum 5]), (0, 0, [])]" and holes = "[]"
      and polys = "[JArr [linear_ring [(7, 7, []), (8, 8, [])]]]"
      and coerce = "\<lambda>v. NaN" and st = "disasterStyle floods" and idx = 2]
  by simp

lemma map_r_all2:
  "list_all2 (\<lambda>x y. f x = Inr y) xs ys \<Longrightarrow> map_r f xs = Inr ys"
  by (induction rule: list_all2_induct) auto

text \<open>
  C10. An entry of a cell that is \<^verbatim>\<open>null\<close> or \<^verbatim>\<open>undefined\<close>, or that has no geometry,
  yields no primitive and no error, and the other features of the cell are rendered: where
  each of them renders to its primitives, the cell renders to all of these, in order; and in
  every case the cell renders as it does without that entry.
\<close>

theorem missing_geometry_skipped:
  assumes "nullish feat \<or> get_prop ''geometry'' feat = Inr JUndefined"
  shows "render_feature coerce st idx feat = Inr []
       \<and> (list_all2 (\<lambda>f ps. render_feature coerce st idx f = Inr ps) xs pxs
          \<and> list_all2 (\<lambda>f ps. render_feature coerce st idx f = Inr ps) ys pys
            \<longrightarrow> render_cell coerce st idx (xs @ feat # ys) = Inr (concat pxs @ concat pys))
       \<and> render_cell coerce st idx (xs @ feat # ys) = render_cell coerce st idx (xs @ ys)"
proof -
  have skip: "render_feature coerce st idx feat = Inr []"
    using assms by (cases feat) (auto simp: render_feature_def)
  have cons: "map_r (render_feature coerce st idx) (feat # ys) =
      (case map_r (render_feature coerce st idx) ys of
         Inl e \<Rightarrow> Inl e | Inr vs \<Rightarrow> Inr ([] # vs))"
    using skip by simp
  then have same: "render_cell coerce st idx (xs @ feat # ys) = render_cell coerce st idx (xs @ ys)"
    by (simp add: render_cell_def map_r_append split: sum.splits)
  have "render_cell coerce st idx (xs @ feat # ys) = Inr (concat pxs @ concat pys)"
    if "list_all2 (\<lambda>f ps. render_feature coerce st idx f = Inr ps) xs pxs"
      and "list_all2 (\<lambda>f ps. render_feature coerce st idx f = Inr ps) ys pys"
    using map_r_all2 [OF that(1)] map_r_all2 [OF that(2)] cons
    by (simp add: render_cell_def map_r_append)
  then show ?thesis using skip same by blast
qed

theorem missing_geometry_skipped_witness:
  "render_feature (\<lambda>v. NaN) (disasterStyle fires) 0 JNull = Inr []
   \<and> render_feature (\<lambda>v. NaN) (disasterStyle fires) 0 (JObj [(''id'', JNum 3)]) = Inr []
   \<and> render_cell (\<lambda>v. NaN) (disasterStyle fires) 0
       [JObj [(''geometry'', JObj [(''type'', JStr ''Point''),
                                   (''coordinates'', JArr [JNum 1, JNum 2])])],
        JNull,
        JObj [(''id'', JNum 3)],
        JObj [(''geometry'', JObj [(''type'', JStr ''Point''),
                                   (''coordinates'', JArr [JNum 10, JNum 20])])]]
     = Inr [PointMesh (JNum 2) (JNum 1) (Fin 0.036) ''#ff6600'' 1.02,
            PointMesh (JNum 20) (JNum 10) (Fin 0.036) ''#ff6600'' 1.02]"
proof -
  let ?r = "render_feature (\<lambda>v. NaN) (disasterStyle fires) 0"
  let ?p1 = "JObj [(''geometry'', JObj [(''type'', JStr ''Point''),
                                   (''coordinates'', JArr [JNum 1, JNum 2])])]"
  let ?p2 = "JObj [(''geometry'', JObj [(''type'', JStr ''Point''),
                                   (''coordinates'', JArr [JNum 10, JNum 20])])]"
  let ?m1 = "PointMesh (JNum 2) (JNum 1) (Fin 0.036) ''#ff6600'' 1.02"
  let ?m2 = "PointMesh (JNum 20) (JNum 10) (Fin 0.036) ''#ff6600'' 1.02"
  have r1: "?r ?p1 = Inr [?m1]"
    by (simp add: render_feature_def GeoPoint_def point_size_def effective_risk_def
        point_altitude_def)
  have r2: "?r ?p2 = Inr [?m2]"
    by (simp add: render_feature_def GeoPoint_def point_size_def effective_risk_def
        point_altitude_def)
  have n: "nullish JNull \<or> get_prop ''geometry'' JNull = Inr JUndefined" by simp
  have g: "nullish (JObj [(''id'', JNum 3)])
      \<or> get_prop ''geometry'' (JObj [(''id'', JNum 3)]) = Inr JUndefined" by simp
  have skip: "?r (JObj [(''id'', JNum 3)]) = Inr []"
    using missing_geometry_skipped [OF g, of "\<lambda>v. NaN" "disasterStyle fires" 0] by simp
  have xs: "list_all2 (\<lambda>f ps. ?r f = Inr ps) [?p1] [[?m1]]"
    using r1 by simp
  have ys: "list_all2 (\<lambda>f ps. ?r f = Inr ps) [JObj [(''id'', JNum 3)], ?p2] [[], [?m2]]"
    using r2 skip by simp
  show ?thesis
    using missing_geometry_skipped
        [OF n, of "\<lambda>v. NaN" "disasterStyle fires" 0 "[?p1]" "[[?m1]]"
           "[JObj [(''id'', JNum 3)], ?p2]" "[[], [?m2]]"]
      xs ys skip
    by simp
qed

section \<open>Properties of the prediction engine\<close>

lemma features_of_collection [simp]: "features_of (FeatureCollection fs) = fs"
  by (simp add: features_of_def FeatureCollection_def)

lemma infer_orchestrator:
  "mode cfg \<noteq> ''local'' \<Longrightarrow>
   infer cfg d h opts out e =
     (infer_finally d h (infer_issue (apiBase cfg) d h opts e), infer_result out)"
  by (simp add: infer_def)

lemma infer_overlay:
  "infer (overlay_config api) d h opts out e =
     (infer_finally d h (infer_issue api d h opts e), infer_result out)"
  by (simp add: infer_def overlay_config_def)

text \<open>
  C8. In orchestrator mode (any mode but \<^verbatim>\<open>local\<close>), a 2xx response whose JSON body is
  \<^verbatim>\<open>{ geojson: FeatureCollection }\<close> or a bare FeatureCollection resolves \<^verbatim>\<open>infer\<close> with that
  FeatureCollection; a response that is not 2xx rejects it with an \<^verbatim>\<open>Error\<close> whose message
  is \<^verbatim>\<open>Inference request failed: \<close> followed by the status and the body's text.
\<close>

theorem infer_contract:
  assumes "mode cfg \<noteq> ''local''"
  shows "(ok res \<and> body_json res = Inr (JObj [(''geojson'', FeatureCollection fs)])
            \<longrightarrow> snd (infer cfg d h opts (Responded res) e) = Inr (FeatureCollection fs))
       \<and> (ok res \<and> body_json res = Inr (FeatureCollection fs)
            \<longrightarrow> snd (infer cfg d h opts (Responded res) e) = Inr (FeatureCollection fs))
       \<and> (\<not> ok res \<and> body_text res = Inr body
            \<longrightarrow> snd (infer cfg d h opts (Responded res) e) =
                  Inl (Error (''Inference request failed: '' @ show_nat (status res)
                              @ '' '' @ body)))"
  using assms
  by (simp add: infer_orchestrator infer_result_def FeatureCollection_def)

theorem infer_contract_witness:
  "snd (infer (overlay_config '''') ''fires'' 6 realtime
         (Responded \<lparr>status = 200, body_text = Inr ''{}'',
            body_json = Inr (JObj [(''geojson'', FeatureCollection [JNull])])\<rparr>) initial_engine)
     = Inr (FeatureCollection [JNull])
   \<and> snd (infer (overlay_config '''') ''fires'' 6 realtime
         (Responded \<lparr>status = 200, body_text = Inr ''{}'',
            body_json = Inr (FeatureCollection [JNull])\<rparr>) initial_engine)
     = Inr (FeatureCollection [JNull])
   \<and> snd (infer (overlay_config '''') ''fires'' 6 realtime
         (Responded \<lparr>status = 503, body_text = Inr ''busy'',
            body_json = Inl SyntaxError\<rparr>) initial_engine)
     = Inl (Error ''Inference request failed: 503 busy'')"
proof -
  have m: "mode (overlay_config '''') \<noteq> ''local''" by (simp add: overlay_config_def)
  have s: "show_nat 503 = ''503''" by (simp add: show_nat.simps digit_char_def)
  show ?thesis
    using infer_contract [OF m, where res = "\<lparr>status = 200, body_text = Inr ''{}'',
            body_json = Inr (JObj [(''geojson'', FeatureCollection [JNull])])\<rparr>"
          and fs = "[JNull]"]
      infer_contract [OF m, where res = "\<lparr>status = 200, body_text = Inr ''{}'',
            body_json = Inr (FeatureCollection [JNull])\<rparr>" and fs = "[JNull]"]
      infer_contract [OF m, where res = "\<lparr>status = 503, body_text = Inr ''busy'',
            body_json = Inl SyntaxError\<rparr>" and body = "''busy''"]
    by (simp add: ok_def s)
qed

section \<open>Properties of one uninterrupted cycle\<close>

lemma fetch_cells_snd:
  "snd (fetch_cells api backend cells (e, np)) =
     fold (\<lambda>(d, h). store d h (cell_features (infer_result (backend (disaster_name d) h))))
       cells np"
  by (induction cells arbitrary: e np) (auto simp: infer_overlay)

lemma fold_store_lookup:
  "fold (\<lambda>(d, h). store d h (val d h)) cells np d h =
     (if (d, h) \<in> set cells then Some (val d h) else np d h)"
  by (induction cells arbitrary: np) (auto simp: store_def split: if_splits)

lemma set_grid: "set (grid hs) = UNIV \<times> set hs"
proof -
  have "set disasters = UNIV"
    using disaster.exhaust by (auto simp: disasters_def)
  then show ?thesis by (auto simp: grid_def)
qed

lemma fetchAll_snapshot:
  "snd (fetchAll api backend hs True s) =
     fold (\<lambda>(d, h). store d h (cell_features (infer_result (backend (disaster_name d) h))))
       (grid hs) empty_snapshot"
  using fetch_cells_snd [of api backend "grid hs" "fst s" empty_snapshot]
  by (simp add: fetchAll_def split: prod.splits)

lemma fetchAll_entry:
  "snd (fetchAll api backend hs True s) d h =
     (if h \<in> set hs then Some (cell_features (infer_result (backend (disaster_name d) h)))
      else None)"
  using fold_store_lookup
    [of "\<lambda>d h. cell_features (infer_result (backend (disaster_name d) h))"
      "grid hs" empty_snapshot d h]
  by (simp add: fetchAll_snapshot set_grid empty_snapshot_def)

text \<open>
  C1. After a cycle, the snapshot has an entry for every disaster and every horizon of the
  list: the empty sequence where the call for that cell failed, the features of what the
  call resolved with otherwise. The entry of a cell depends on the backend's answer for that
  cell alone.
\<close>

theorem fetchAll_every_cell:
  assumes "h \<in> set hoursList"
  shows "snd (fetchAll api backend hoursList True s) d h =
           Some (case infer_result (backend (disaster_name d) h) of
                   Inl err \<Rightarrow> []
                 | Inr geojson \<Rightarrow> features_of geojson)"
  using assms by (simp add: fetchAll_entry cell_features_def)

theorem fetchAll_every_cell_witness:
  "snd (fetchAll ''''
          (\<lambda>d h. if d = ''floods'' \<and> h = 12 then Rejected (Error ''down'')
                  else Responded \<lparr>status = 200, body_text = Inr '''',
                         body_json = Inr (FeatureCollection [JStr d])\<rparr>)
          [6, 12, 24] True (initial_engine, empty_snapshot)) floods 12 = Some []
   \<and> snd (fetchAll ''''
          (\<lambda>d h. if d = ''floods'' \<and> h = 12 then Rejected (Error ''down'')
                  else Responded \<lparr>status = 200, body_text = Inr '''',
                         body_json = Inr (FeatureCollection [JStr d])\<rparr>)
          [6, 12, 24] True (initial_engine, empty_snapshot)) floods 24 = Some [JStr ''floods'']
   \<and> snd (fetchAll ''''
          (\<lambda>d h. if d = ''floods'' \<and> h = 12 then Rejected (Error ''down'')
                  else Responded \<lparr>status = 200, body_text = Inr '''',
                         body_json = Inr (FeatureCollection [JStr d])\<rparr>)
          [6, 12, 24] True (initial_engine, empty_snapshot)) fires 12 = Some [JStr ''fires'']"
proof -
  let ?b = "\<lambda>d h. if d = ''floods'' \<and> h = (12::nat) then Rejected (Error ''down'')
                  else Responded \<lparr>status = 200, body_text = Inr '''',
                         body_json = Inr (FeatureCollection [JStr d])\<rparr>"
  have g: "get_prop ''geojson'' (FeatureCollection fs) = Inr JUndefined" for fs
    by (simp add: FeatureCollection_def)
  show ?thesis
    using fetchAll_every_cell [of 12 "[6, 12, 24]" "''''" ?b "(initial_engine, empty_snapshot)" floods]
      fetchAll_every_cell [of 24 "[6, 12, 24]" "''''" ?b "(initial_engine, empty_snapshot)" floods]
      fetchAll_every_cell [of 12 "[6, 12, 24]" "''''" ?b "(initial_engine, empty_snapshot)" fires]
    by (simp add: infer_result_def ok_def g)
qed

lemma delete_as_filter: "AList.delete k al = filter (\<lambda>(k', v). k' \<noteq> k) al"
  by (induction al) auto

lemma filter_cells:
  "filter (\<lambda>(k, c). k \<notin> cell_key ` set cells)
     (filter (\<lambda>(k, c). k \<noteq> cell_key cell) al)
   = filter (\<lambda>(k, c). k \<notin> cell_key ` set (cell # cells)) al"
  by (induction al) auto

lemma fetch_cells_engine:
  "aborted (fst (fetch_cells api backend cells (e, np))) = aborted e
   \<and> abortControllers (fst (fetch_cells api backend cells (e, np))) =
       filter (\<lambda>(k, c). k \<notin> cell_key ` set cells) (abortControllers e)
   \<and> map call_of (calls (fst (fetch_cells api backend cells (e, np)))) =
       map call_of (calls e) @
       map (\<lambda>(d, h). (api @ ''/api/ai/infer'', disaster_name d, h, realtime)) cells"
proof (induction cells arbitrary: e np)
  case Nil
  then show ?case by simp
next
  case (Cons cell cells)
  obtain d h where cell: "cell = (d, h)" by (cases cell)
  let ?e = "infer_finally (disaster_name d) h (infer_issue api (disaster_name d) h realtime e)"
  let ?np = "store d h (cell_features (infer_result (backend (disaster_name d) h))) np"
  have st: "fetch_cells api backend (cell # cells) (e, np) =
      fetch_cells api backend cells (?e, ?np)"
    by (simp add: cell infer_overlay)
  have a: "aborted ?e = aborted e"
    by (simp add: infer_finally_def infer_issue_def)
  have "abortControllers ?e = AList.delete (cell_key cell) (abortControllers e)"
    by (simp add: infer_finally_def infer_issue_def AList.delete_update_same cell_key_def cell)
  then have r: "abortControllers ?e =
      filter (\<lambda>(k, c). k \<noteq> cell_key cell) (abortControllers e)"
    by (simp only: delete_as_filter)
  have c: "map call_of (calls ?e) =
      map call_of (calls e) @ [(api @ ''/api/ai/infer'', disaster_name d, h, realtime)]"
    by (simp add: infer_finally_def infer_issue_def call_of_def)
  note f = filter_cells [of cells cell "abortControllers e"]
  show ?case
    unfolding st using Cons.IH [of ?e ?np] a r c f by (simp add: cell)
qed

text \<open>
  C9. The snapshot a cycle publishes is a function of the backend and the horizon list: two
  executions, from whatever engine states and previous predictions, publish equal snapshots,
  and so does an execution that follows another. Of the engine a cycle changes nothing but
  the calls made, one per cell in order: no controller is aborted, and the table of
  controllers is left without the cells' keys (so as it was, when none was registered).
\<close>

theorem cycle_idempotent:
  "snd (fetchAll api backend hs True s) = snd (fetchAll api backend hs True s')
   \<and> snd (fetchAll api backend hs True (fetchAll api backend hs True s))
       = snd (fetchAll api backend hs True s)
   \<and> aborted (fst (fetchAll api backend hs m s)) = aborted (fst s)
   \<and> abortControllers (fst (fetchAll api backend hs m s)) =
       filter (\<lambda>(k, c). k \<notin> cell_key ` set (grid hs)) (abortControllers (fst s))
   \<and> map call_of (calls (fst (fetchAll api backend hs m s))) =
       map call_of (calls (fst s)) @
       map (\<lambda>(d, h). (api @ ''/api/ai/infer'', disaster_name d, h, realtime)) (grid hs)"
proof -
  have "fst (fetchAll api backend hs m s) =
      fst (fetch_cells api backend (grid hs) (fst s, empty_snapshot))"
    by (simp add: fetchAll_def split: prod.splits)
  then show ?thesis
    using fetch_cells_engine [of api backend "grid hs" "fst s" empty_snapshot]
    by (simp add: fetchAll_snapshot)
qed

section \<open>Properties of the effect, event by event\<close>

lemma set_update_subset: "set (AList.update k v al) \<subseteq> insert (k, v) (set al)"
  by (induction al) auto

lemma set_delete_subset: "set (AList.delete k al) \<subseteq> set al"
  by (induction al) auto

lemma build_snoc:
  "build (xs @ [(c, out)]) = store (fst c) (snd c) (cell_features (infer_result out)) (build xs)"
  by (simp add: build_def)

lemma build_lookup:
  "build xs d h =
     map_option (\<lambda>out. cell_features (infer_result out)) (map_of (rev xs) (d, h))"
proof (induction xs rule: rev_induct)
  case Nil
  then show ?case by (simp add: build_def empty_snapshot_def)
next
  case (snoc x xs)
  obtain c out where x: "x = (c, out)" by (cases x)
  obtain d' h' where c: "c = (d', h')" by (cases c)
  show ?case
    using snoc.IH by (auto simp: x c build_snoc store_def)
qed

lemma build_as_lookup:
  "build xs =
     (\<lambda>d h. map_option (\<lambda>out. cell_features (infer_result out)) (map_of (rev xs) (d, h)))"
  by (intro ext) (rule build_lookup)

lemma built_cycle_whole: "built_cycle p \<Longrightarrow> whole_cycle p"
  unfolding built_cycle_def whole_cycle_def
  using build_as_lookup [of "zip (grid (pub_hours p)) (pub_outs p)"] by simp

lemma zip_snoc:
  "length ys < length xs \<Longrightarrow> zip xs (ys @ [y]) = zip xs ys @ [(xs ! length ys, y)]"
proof (induction xs arbitrary: ys)
  case Nil
  then show ?case by simp
next
  case (Cons x xs)
  then show ?case by (cases ys) auto
qed

lemma drop_Cons_facts:
  assumes "drop n xs = x # rest"
  shows "n < length xs" and "xs ! n = x" and "drop (Suc n) xs = rest"
proof -
  show n: "n < length xs" using assms by (cases "n < length xs") auto
  show "xs ! n = x" using assms n by (metis Cons_nth_drop_Suc list.inject)
  show "drop (Suc n) xs = rest" using assms n by (metis Cons_nth_drop_Suc list.inject)
qed

lemma consistent_pub:
  "consistent w \<Longrightarrow> p \<in> set (publications w) \<Longrightarrow> built_cycle p \<and> pub_cycle p < started w"
  unfolding consistent_def by blast

lemma consistent_cyc:
  "consistent w \<Longrightarrow> (cid, c) \<in> set (cycles w) \<Longrightarrow>
     cycle_ok c \<and> cid < started w \<and> cid \<notin> pub_cycle ` set (publications w)"
  unfolding consistent_def by blast

lemma consistent_distinct: "consistent w \<Longrightarrow> distinct (map pub_cycle (publications w))"
  unfolding consistent_def by blast

lemma consistent_pred:
  "consistent w \<Longrightarrow> predictions w =
     (if publications w = [] then empty_snapshot else pub_snapshot (last (publications w)))"
  unfolding consistent_def by blast

lemma consistentI:
  assumes "\<And>p. p \<in> set (publications w) \<Longrightarrow> built_cycle p \<and> pub_cycle p < started w"
    and "\<And>cid c. (cid, c) \<in> set (cycles w) \<Longrightarrow>
           cycle_ok c \<and> cid < started w \<and> cid \<notin> pub_cycle ` set (publications w)"
    and "distinct (map pub_cycle (publications w))"
    and "predictions w =
     (if publications w = [] then empty_snapshot else pub_snapshot (last (publications w)))"
  shows "consistent w"
  unfolding consistent_def using assms by blast

lemma advance_finish_mounted:
  "mounted ep w \<Longrightarrow>
   advance api cid ep hs outs np [] w =
     w\<lparr>cycles := AList.delete cid (cycles w), predictions := np,
       publications := publications w @
         [\<lparr>pub_cycle = cid, pub_hours = hs, pub_outs = outs, pub_snapshot = np\<rparr>]\<rparr>"
  by simp

lemma advance_finish_unmounted:
  "\<not> mounted ep w \<Longrightarrow>
   advance api cid ep hs outs np [] w = w\<lparr>cycles := AList.delete cid (cycles w)\<rparr>"
  by simp

lemma advance_consistent:
  assumes con: "consistent w" and adv: "adv_ok hs outs np rest" and lt: "cid < started w"
    and fresh: "cid \<notin> pub_cycle ` set (publications w)"
  shows "consistent (advance api cid ep hs outs np rest w)"
proof (cases rest)
  case Nil
  let ?P = "\<lparr>pub_cycle = cid, pub_hours = hs, pub_outs = outs, pub_snapshot = np\<rparr>"
  have whole: "built_cycle ?P"
    using adv Nil by (simp add: adv_ok_def built_cycle_def)
  have sub: "set (AList.delete cid (cycles w)) \<subseteq> set (cycles w)"
    by (rule set_delete_subset)
  have notin: "cid \<notin> fst ` set (AList.delete cid (cycles w))"
    by (rule AList.delete_notin_dom)
  show ?thesis
  proof (cases "mounted ep w")
    case True
    let ?w = "w\<lparr>cycles := AList.delete cid (cycles w), predictions := np,
       publications := publications w @ [?P]\<rparr>"
    have "consistent ?w"
    proof (rule consistentI)
      fix p assume "p \<in> set (publications ?w)"
      then have "p \<in> set (publications w) \<or> p = ?P" by auto
      then show "built_cycle p \<and> pub_cycle p < started ?w"
        using consistent_pub [OF con] whole lt by auto
    next
      fix k c assume "(k, c) \<in> set (cycles ?w)"
      then have in_del: "(k, c) \<in> set (AList.delete cid (cycles w))" by simp
      then have mem: "(k, c) \<in> set (cycles w)" using sub by blast
      have "k \<noteq> cid" using in_del notin by force
      then show "cycle_ok c \<and> k < started ?w \<and> k \<notin> pub_cycle ` set (publications ?w)"
        using consistent_cyc [OF con mem] by auto
    next
      show "distinct (map pub_cycle (publications ?w))"
        using consistent_distinct [OF con] fresh by auto
    next
      show "predictions ?w =
        (if publications ?w = [] then empty_snapshot else pub_snapshot (last (publications ?w)))"
        by simp
    qed
    then show ?thesis using True Nil by simp
  next
    case False
    let ?w = "w\<lparr>cycles := AList.delete cid (cycles w)\<rparr>"
    have "consistent ?w"
    proof (rule consistentI)
      fix p assume "p \<in> set (publications ?w)"
      then show "built_cycle p \<and> pub_cycle p < started ?w"
        using consistent_pub [OF con, of p] by simp
    next
      fix k c assume "(k, c) \<in> set (cycles ?w)"
      then have mem: "(k, c) \<in> set (cycles w)" using sub by auto
      show "cycle_ok c \<and> k < started ?w \<and> k \<notin> pub_cycle ` set (publications ?w)"
        using consistent_cyc [OF con mem] by simp
    next
      show "distinct (map pub_cycle (publications ?w))"
        using consistent_distinct [OF con] by simp
    next
      show "predictions ?w =
        (if publications ?w = [] then empty_snapshot else pub_snapshot (last (publications ?w)))"
        using consistent_pred [OF con] by simp
    qed
    then show ?thesis using False Nil by simp
  qed
next
  case (Cons cell rest')
  obtain d h where cell: "cell = (d, h)" by (cases cell)
  let ?c = "\<lparr>cy_epoch = ep, cy_hours = hs, cy_outs = outs, cy_newPred = np,
          cy_cell = (d, h), cy_rest = rest'\<rparr>"
  let ?w = "w\<lparr>eng := infer_issue api (disaster_name d) h realtime (eng w),
       cycles := AList.update cid ?c (cycles w)\<rparr>"
  have ok: "cycle_ok ?c"
    using adv Cons cell by (simp add: adv_ok_def cycle_ok_def)
  have sub: "set (AList.update cid ?c (cycles w)) \<subseteq> insert (cid, ?c) (set (cycles w))"
    by (rule set_update_subset)
  have "consistent ?w"
  proof (rule consistentI)
    fix p assume "p \<in> set (publications ?w)"
    then show "built_cycle p \<and> pub_cycle p < started ?w"
      using consistent_pub [OF con, of p] by simp
  next
    fix k c assume "(k, c) \<in> set (cycles ?w)"
    then have "(k, c) = (cid, ?c) \<or> (k, c) \<in> set (cycles w)" using sub by auto
    then show "cycle_ok c \<and> k < started ?w \<and> k \<notin> pub_cycle ` set (publications ?w)"
    proof
      assume "(k, c) = (cid, ?c)"
      then show ?thesis using ok lt fresh by simp
    next
      assume mem: "(k, c) \<in> set (cycles w)"
      show ?thesis using consistent_cyc [OF con mem] by simp
    qed
  next
    show "distinct (map pub_cycle (publications ?w))"
      using consistent_distinct [OF con] by simp
  next
    show "predictions ?w =
      (if publications ?w = [] then empty_snapshot else pub_snapshot (last (publications ?w)))"
      using consistent_pred [OF con] by simp
  qed
  then show ?thesis using Cons cell by simp
qed

lemma start_cycle_consistent:
  assumes "consistent w"
  shows "consistent (start_cycle api w)"
proof (cases "live w")
  case None
  then show ?thesis using assms by (simp add: start_cycle_def)
next
  case (Some l)
  obtain ep hs where l: "l = (ep, hs)" by (cases l)
  let ?w = "w\<lparr>started := Suc (started w)\<rparr>"
  have c: "consistent ?w"
    using assms unfolding consistent_def by (auto intro: less_SucI)
  have a: "adv_ok hs [] empty_snapshot (grid hs)"
    by (simp add: adv_ok_def build_def)
  have n: "started w \<notin> pub_cycle ` set (publications ?w)"
    using assms by (auto simp: consistent_def)
  show ?thesis
    using advance_consistent [OF c a _ n, of api ep] Some l
    by (simp add: start_cycle_def)
qed

lemma settle_consistent:
  assumes "consistent w"
  shows "consistent (step api (Settle cid out) w)"
proof (cases "map_of (cycles w) cid")
  case None
  then show ?thesis using assms by simp
next
  case (Some c)
  then have mem: "(cid, c) \<in> set (cycles w)" by (rule map_of_SomeD)
  then have ok: "cycle_ok c" and lt: "cid < started w"
    and np: "cid \<notin> pub_cycle ` set (publications w)"
    using assms by (auto simp: consistent_def)
  let ?w = "w\<lparr>eng := infer_finally (disaster_name (fst (cy_cell c))) (snd (cy_cell c)) (eng w)\<rparr>"
  have c: "consistent ?w" using assms by (simp add: consistent_def)
  note d = drop_Cons_facts [of "length (cy_outs c)" "grid (cy_hours c)" "cy_cell c" "cy_rest c"]
  have dr: "drop (length (cy_outs c)) (grid (cy_hours c)) = cy_cell c # cy_rest c"
    using ok by (simp add: cycle_ok_def)
  have a: "adv_ok (cy_hours c) (cy_outs c @ [out])
      (store (fst (cy_cell c)) (snd (cy_cell c)) (cell_features (infer_result out)) (cy_newPred c))
      (cy_rest c)"
    using ok d [OF dr] by (simp add: adv_ok_def cycle_ok_def zip_snoc build_snoc)
  show ?thesis
    using advance_consistent [OF c a, of cid api "cy_epoch c"] lt np Some
    by simp
qed

lemma step_consistent: "consistent w \<Longrightarrow> consistent (step api ev w)"
proof (cases ev)
  case (Enable hs)
  assume c: "consistent w"
  have "consistent (w\<lparr>live := Some (epochs w, hs), epochs := Suc (epochs w)\<rparr>)"
    using c by (simp add: consistent_def)
  then show ?thesis using Enable by (simp add: start_cycle_consistent)
next
  case Tick
  assume "consistent w"
  then show ?thesis using Tick by (simp add: start_cycle_consistent)
next
  case (Settle cid out)
  assume "consistent w"
  then show ?thesis using Settle by (simp only: settle_consistent)
next
  case Disable
  assume "consistent w"
  then show ?thesis using Disable by (simp add: consistent_def)
next
  case Unmount
  assume "consistent w"
  then show ?thesis using Unmount by (simp add: consistent_def)
qed

lemma run_consistent: "consistent w \<Longrightarrow> consistent (run api evs w)"
  unfolding run_def by (induction evs arbitrary: w) (auto simp: step_consistent)

lemma initial_consistent: "consistent initial_world"
  by (simp add: consistent_def initial_world_def)

lemma sum_update:
  fixes f :: "'k \<times> 'v \<Rightarrow> nat"
  shows "map_of al k = Some c \<Longrightarrow>
    sum_list (map f (AList.update k c' al)) + f (k, c) = sum_list (map f al) + f (k, c')"
  by (induction al) (auto split: if_splits)

lemma sum_delete_le:
  fixes f :: "'k \<times> 'v \<Rightarrow> nat"
  shows "sum_list (map f (AList.delete k al)) \<le> sum_list (map f al)"
  by (induction al) auto

lemma calls_infer_issue [simp]:
  "length (calls (infer_issue api d h opts e)) = Suc (length (calls e))"
  by (simp add: infer_issue_def)

lemma calls_infer_finally [simp]: "calls (infer_finally d h e) = calls e"
  by (simp add: infer_finally_def)

lemma calls_cleanup [simp]: "calls (cleanup e) = calls e"
  by (simp add: cleanup_def)

lemma settle_quiet:
  assumes "live w = None"
  shows "quiet_le (step api (Settle cid out) w) w"
proof (cases "map_of (cycles w) cid")
  case None
  then show ?thesis using assms by (simp add: quiet_le_def)
next
  case (Some c)
  let ?w = "w\<lparr>eng := infer_finally (disaster_name (fst (cy_cell c))) (snd (cy_cell c)) (eng w)\<rparr>"
  let ?np = "store (fst (cy_cell c)) (snd (cy_cell c)) (cell_features (infer_result out))
               (cy_newPred c)"
  have nm: "\<not> mounted (cy_epoch c) ?w" using assms by (simp add: mounted_def)
  have st: "step api (Settle cid out) w =
      advance api cid (cy_epoch c) (cy_hours c) (cy_outs c @ [out]) ?np (cy_rest c) ?w"
    using Some by simp
  show ?thesis
  proof (cases "cy_rest c")
    case Nil
    have "step api (Settle cid out) w = ?w\<lparr>cycles := AList.delete cid (cycles ?w)\<rparr>"
      using st nm Nil by simp
    moreover have "pending (?w\<lparr>cycles := AList.delete cid (cycles ?w)\<rparr>) \<le> pending w"
      by (simp add: pending_def sum_delete_le)
    ultimately show ?thesis using assms by (simp add: quiet_le_def)
  next
    case (Cons cell rest')
    obtain d h where cell: "cell = (d, h)" by (cases cell)
    let ?c = "\<lparr>cy_epoch = cy_epoch c, cy_hours = cy_hours c, cy_outs = cy_outs c @ [out],
                cy_newPred = ?np, cy_cell = (d, h), cy_rest = rest'\<rparr>"
    let ?w' = "?w\<lparr>eng := infer_issue api (disaster_name d) h realtime (eng ?w),
                 cycles := AList.update cid ?c (cycles ?w)\<rparr>"
    have eq: "step api (Settle cid out) w = ?w'"
      using st Cons cell by simp
    have "pending ?w' + length (cy_rest c) = pending w + length rest'"
      using sum_update [OF Some, of "\<lambda>(cid, c). length (cy_rest c)" ?c]
      by (simp add: pending_def)
    then have "pending ?w' + 1 = pending w" using Cons by simp
    then have "length (calls (eng ?w')) + pending ?w' \<le> length (calls (eng w)) + pending w"
      by simp
    then show ?thesis unfolding eq using assms by (simp add: quiet_le_def)
  qed
qed

lemma step_quiet:
  assumes "live w = None" and "\<not> is_Enable ev"
  shows "quiet_le (step api ev w) w"
proof (cases ev)
  case (Enable hs)
  then show ?thesis using assms by simp
next
  case Tick
  then show ?thesis using assms by (simp add: start_cycle_def quiet_le_def)
next
  case (Settle cid out)
  then show ?thesis using settle_quiet [OF assms(1)] by simp
next
  case Disable
  then show ?thesis using assms by (simp add: quiet_le_def pending_def)
next
  case Unmount
  then show ?thesis using assms by (simp add: quiet_le_def pending_def)
qed

lemma quiet_le_trans: "quiet_le w'' w' \<Longrightarrow> quiet_le w' w \<Longrightarrow> quiet_le w'' w"
  by (simp add: quiet_le_def)

lemma run_quiet:
  "live w = None \<Longrightarrow> \<forall>ev \<in> set evs. \<not> is_Enable ev \<Longrightarrow> quiet_le (run api evs w) w"
proof (induction evs arbitrary: w)
  case Nil
  then show ?case by (simp add: run_def quiet_le_def)
next
  case (Cons ev evs)
  have s: "quiet_le (step api ev w) w" using Cons.prems by (simp add: step_quiet)
  then have "live (step api ev w) = None" by (simp add: quiet_le_def)
  then have "quiet_le (run api evs (step api ev w)) (step api ev w)"
    using Cons.IH Cons.prems by simp
  then have "quiet_le (run api evs (step api ev w)) w" using s by (rule quiet_le_trans)
  then show ?case by (simp add: run_def)
qed

lemma settle_publishes:
  assumes "map_of (cycles w) cid = Some c"
  shows "if cy_rest c = [] \<and> mounted (cy_epoch c) w
         then \<exists>p. publications (step api (Settle cid out) w) = publications w @ [p]
                \<and> pub_cycle p = cid
                \<and> predictions (step api (Settle cid out) w) = pub_snapshot p
         else publications (step api (Settle cid out) w) = publications w
                \<and> predictions (step api (Settle cid out) w) = predictions w"
proof -
  let ?w = "w\<lparr>eng := infer_finally (disaster_name (fst (cy_cell c))) (snd (cy_cell c)) (eng w)\<rparr>"
  let ?np = "store (fst (cy_cell c)) (snd (cy_cell c)) (cell_features (infer_result out))
               (cy_newPred c)"
  let ?P = "\<lparr>pub_cycle = cid, pub_hours = cy_hours c, pub_outs = cy_outs c @ [out],
             pub_snapshot = ?np\<rparr>"
  have st: "step api (Settle cid out) w =
      advance api cid (cy_epoch c) (cy_hours c) (cy_outs c @ [out]) ?np (cy_rest c) ?w"
    using assms by simp
  have m: "mounted (cy_epoch c) ?w = mounted (cy_epoch c) w" by (simp add: mounted_def)
  show ?thesis
  proof (cases "cy_rest c")
    case Nil
    show ?thesis
    proof (cases "mounted (cy_epoch c) w")
      case True
      have "publications (step api (Settle cid out) w) = publications w @ [?P]
          \<and> pub_cycle ?P = cid \<and> predictions (step api (Settle cid out) w) = pub_snapshot ?P"
        unfolding st Nil using True m by simp
      then have "\<exists>p. publications (step api (Settle cid out) w) = publications w @ [p]
                \<and> pub_cycle p = cid
                \<and> predictions (step api (Settle cid out) w) = pub_snapshot p" ..
      then show ?thesis using True Nil by simp
    next
      case False
      have "publications (step api (Settle cid out) w) = publications w
                \<and> predictions (step api (Settle cid out) w) = predictions w"
        unfolding st Nil using False m by simp
      then show ?thesis using False by simp
    qed
  next
    case (Cons cell rest')
    obtain d h where cell: "cell = (d, h)" by (cases cell)
    have "publications (step api (Settle cid out) w) = publications w
                \<and> predictions (step api (Settle cid out) w) = predictions w"
      unfolding st Cons cell by simp
    then show ?thesis using Cons by simp
  qed
qed

lemma cycle_ok_pending:
  assumes "cycle_ok c"
  shows "length (cy_outs c) < length (grid (cy_hours c))"
proof -
  have "drop (length (cy_outs c)) (grid (cy_hours c)) = cy_cell c # cy_rest c"
    using assms by (simp add: cycle_ok_def)
  then show ?thesis by (rule drop_Cons_facts(1))
qed

lemma map_of_update_same: "map_of (AList.update k v al) k = Some v"
  by (simp add: AList.update_conv')

text \<open>
  A cycle that nothing interrupts, run event by event, ends with the predictions that
  \<open>fetchAll\<close> computes in one go.
\<close>

lemma suspended_cycle_runs:
  assumes "map_of (cycles w) cid = Some c" and "mounted (cy_epoch c) w"
  shows "predictions
           (run api (map (\<lambda>(d, h). Settle cid (backend (disaster_name d) h))
                       (cy_cell c # cy_rest c)) w)
         = fold (\<lambda>(d, h). store d h (cell_features (infer_result (backend (disaster_name d) h))))
             (cy_cell c # cy_rest c) (cy_newPred c)"
  using assms
proof (induction "cy_rest c" arbitrary: w c)
  case Nil
  obtain d h where cell: "cy_cell c = (d, h)" by (cases "cy_cell c")
  show ?case
    using Nil.prems Nil.hyps [symmetric] cell
    by (simp add: run_def mounted_def)
next
  case (Cons cell' rest')
  obtain d h where cell: "cy_cell c = (d, h)" by (cases "cy_cell c")
  obtain d' h' where cell': "cell' = (d', h')" by (cases cell')
  let ?out = "backend (disaster_name d) h"
  let ?np = "store d h (cell_features (infer_result ?out)) (cy_newPred c)"
  let ?c = "\<lparr>cy_epoch = cy_epoch c, cy_hours = cy_hours c, cy_outs = cy_outs c @ [?out],
             cy_newPred = ?np, cy_cell = (d', h'), cy_rest = rest'\<rparr>"
  let ?w = "step api (Settle cid ?out) w"
  have rest: "cy_rest c = (d', h') # rest'" using Cons.hyps(2) cell' by simp
  have w: "?w = w\<lparr>eng := infer_issue api (disaster_name d') h' realtime
                         (infer_finally (disaster_name d) h (eng w)),
                  cycles := AList.update cid ?c (cycles w)\<rparr>"
    using Cons.prems(1) rest cell by simp
  have m: "map_of (cycles ?w) cid = Some ?c"
    unfolding w by (simp add: map_of_update_same)
  have mo: "mounted (cy_epoch ?c) ?w"
    unfolding w using Cons.prems(2) by (simp add: mounted_def)
  have r: "rest' = cy_rest ?c" by simp
  have "predictions
           (run api (map (\<lambda>(d, h). Settle cid (backend (disaster_name d) h))
                       (cy_cell ?c # cy_rest ?c)) ?w)
         = fold (\<lambda>(d, h). store d h (cell_features (infer_result (backend (disaster_name d) h))))
             (cy_cell ?c # cy_rest ?c) (cy_newPred ?c)"
    using Cons.hyps(1) [OF r m mo] .
  then show ?case
    by (simp add: run_def cell rest)
qed

lemma uninterrupted_cycle:
  assumes "live w = Some (ep, hs)"
  shows "predictions
           (run api (Tick # map (\<lambda>(d, h). Settle (started w) (backend (disaster_name d) h))
                              (grid hs)) w)
         = snd (fetchAll api backend hs True s)"
proof (cases "grid hs")
  case Nil
  then show ?thesis
    using assms by (simp add: run_def start_cycle_def mounted_def fetchAll_snapshot)
next
  case (Cons cell rest)
  obtain d h where cell: "cell = (d, h)" by (cases cell)
  let ?c = "\<lparr>cy_epoch = ep, cy_hours = hs, cy_outs = [], cy_newPred = empty_snapshot,
             cy_cell = (d, h), cy_rest = rest\<rparr>"
  let ?w = "step api Tick w"
  have w: "?w = w\<lparr>started := Suc (started w),
                  eng := infer_issue api (disaster_name d) h realtime (eng w),
                  cycles := AList.update (started w) ?c (cycles w)\<rparr>"
    using assms Cons cell by (simp add: start_cycle_def)
  have m: "map_of (cycles ?w) (started w) = Some ?c"
    unfolding w by (simp add: map_of_update_same)
  have mo: "mounted (cy_epoch ?c) ?w"
    unfolding w using assms by (simp add: mounted_def)
  have "predictions
           (run api (map (\<lambda>(d, h). Settle (started w) (backend (disaster_name d) h))
                       (cy_cell ?c # cy_rest ?c)) ?w)
         = fold (\<lambda>(d, h). store d h (cell_features (infer_result (backend (disaster_name d) h))))
             (cy_cell ?c # cy_rest ?c) (cy_newPred ?c)"
    using suspended_cycle_runs [OF m mo] .
  then show ?thesis
    using Cons cell by (simp add: run_def fetchAll_snapshot)
qed

text \<open>
  C2, as the code has it. In every state the component can reach, whatever the order of the
  events: each publication is a whole cycle's (every cell of that cycle's grid settled; the
  entry of a cell is the features of what that cycle's own call for the cell settled with,
  none on a failure, and there is no other entry); no cycle has published twice, and none
  that is still suspended has published; \<^verbatim>\<open>predictions\<close> is the initial empty snapshot or
  the last snapshot published. When the call a cycle awaits settles, the cycle publishes,
  once, exactly if that was its last cell and its effect is still mounted; otherwise
  \<^verbatim>\<open>predictions\<close> stays as it is.
\<close>

theorem publications_whole_cycles:
  "let w = run api evs initial_world in
     (\<forall>p \<in> set (publications w). whole_cycle p)
     \<and> distinct (map pub_cycle (publications w))
     \<and> (\<forall>(cid, c) \<in> set (cycles w).
           cid \<notin> pub_cycle ` set (publications w)
           \<and> length (cy_outs c) < length (grid (cy_hours c)))
     \<and> predictions w =
         (if publications w = [] then empty_snapshot
          else pub_snapshot (last (publications w)))
     \<and> (\<forall>cid c out. map_of (cycles w) cid = Some c \<longrightarrow>
           (if cy_rest c = [] \<and> mounted (cy_epoch c) w
            then \<exists>p. publications (step api (Settle cid out) w) = publications w @ [p]
                   \<and> pub_cycle p = cid
                   \<and> predictions (step api (Settle cid out) w) = pub_snapshot p
            else publications (step api (Settle cid out) w) = publications w
                   \<and> predictions (step api (Settle cid out) w) = predictions w))"
proof -
  let ?w = "run api evs initial_world"
  have con: "consistent ?w" using initial_consistent by (rule run_consistent)
  have 1: "\<forall>p \<in> set (publications ?w). whole_cycle p"
  proof
    fix p assume "p \<in> set (publications ?w)"
    then have "built_cycle p" using consistent_pub [OF con] by simp
    then show "whole_cycle p" by (rule built_cycle_whole)
  qed
  have 2: "distinct (map pub_cycle (publications ?w))"
    using con by (rule consistent_distinct)
  have 3: "\<forall>(cid, c) \<in> set (cycles ?w).
           cid \<notin> pub_cycle ` set (publications ?w)
           \<and> length (cy_outs c) < length (grid (cy_hours c))"
  proof (rule ballI, clarify)
    fix cid c assume mem: "(cid, c) \<in> set (cycles ?w)"
    show "cid \<notin> pub_cycle ` set (publications ?w)
           \<and> length (cy_outs c) < length (grid (cy_hours c))"
      using consistent_cyc [OF con mem] cycle_ok_pending [of c] by simp
  qed
  have 4: "predictions ?w =
         (if publications ?w = [] then empty_snapshot
          else pub_snapshot (last (publications ?w)))"
    using con by (rule consistent_pred)
  have 5: "\<forall>cid c out. map_of (cycles ?w) cid = Some c \<longrightarrow>
           (if cy_rest c = [] \<and> mounted (cy_epoch c) ?w
            then \<exists>p. publications (step api (Settle cid out) ?w) = publications ?w @ [p]
                   \<and> pub_cycle p = cid
                   \<and> predictions (step api (Settle cid out) ?w) = pub_snapshot p
            else publications (step api (Settle cid out) ?w) = publications ?w
                   \<and> predictions (step api (Settle cid out) ?w) = predictions ?w)"
    by (intro allI impI) (rule settle_publishes)
  show ?thesis
    unfolding Let_def using 1 2 3 4 5 by (intro conjI)
qed

lemmas trace_eval =
  run_def initial_world_def initial_engine_def start_cycle_def grid_def disasters_def
  infer_issue_def infer_finally_def mounted_def request_key_def show_nat.simps digit_char_def
  cleanup_def pending_def

lemmas cell_eval =
  store_def empty_snapshot_def cell_features_def infer_result_def ok_def
  FeatureCollection_def features_of_def

theorem publications_whole_cycles_witness:
  "publications
     (run '''' [Enable [6],
                Settle 0 (Responded \<lparr>status = 200, body_text = Inr '''',
                            body_json = Inr (FeatureCollection [JStr ''a''])\<rparr>),
                Settle 0 (Rejected AbortError),
                Settle 0 (Responded \<lparr>status = 200, body_text = Inr '''',
                            body_json = Inr (FeatureCollection [JStr ''c''])\<rparr>)]
        initial_world) \<noteq> []
   \<and> whole_cycle (last (publications
       (run '''' [Enable [6],
                  Settle 0 (Responded \<lparr>status = 200, body_text = Inr '''',
                              body_json = Inr (FeatureCollection [JStr ''a''])\<rparr>),
                  Settle 0 (Rejected AbortError),
                  Settle 0 (Responded \<lparr>status = 200, body_text = Inr '''',
                              body_json = Inr (FeatureCollection [JStr ''c''])\<rparr>)]
          initial_world)))
   \<and> predictions
       (run '''' [Enable [6],
                  Settle 0 (Responded \<lparr>status = 200, body_text = Inr '''',
                              body_json = Inr (FeatureCollection [JStr ''a''])\<rparr>),
                  Settle 0 (Rejected AbortError),
                  Settle 0 (Responded \<lparr>status = 200, body_text = Inr '''',
                              body_json = Inr (FeatureCollection [JStr ''c''])\<rparr>)]
          initial_world)
     = (\<lambda>d h. if h = 6
               then Some (case d of fires \<Rightarrow> [JStr ''a''] | floods \<Rightarrow> []
                          | landslides \<Rightarrow> [JStr ''c''])
               else None)
   \<and> publications
       (run '''' [Enable [6],
                  Settle 0 (Responded \<lparr>status = 200, body_text = Inr '''',
                              body_json = Inr (FeatureCollection [JStr ''a''])\<rparr>),
                  Settle 0 (Rejected AbortError)]
          initial_world) = []
   \<and> (\<exists>p. publications
            (step '''' (Settle 0 (Responded \<lparr>status = 200, body_text = Inr '''',
                              body_json = Inr (FeatureCollection [JStr ''c''])\<rparr>))
               (run '''' [Enable [6],
                          Settle 0 (Responded \<lparr>status = 200, body_text = Inr '''',
                                      body_json = Inr (FeatureCollection [JStr ''a''])\<rparr>),
                          Settle 0 (Rejected AbortError)]
                  initial_world)) = [p]
          \<and> pub_cycle p = 0)"
proof -
  let ?A = "Responded \<lparr>status = 200, body_text = Inr '''',
              body_json = Inr (FeatureCollection [JStr ''a''])\<rparr>"
  let ?C = "Responded \<lparr>status = 200, body_text = Inr '''',
              body_json = Inr (FeatureCollection [JStr ''c''])\<rparr>"
  let ?evs2 = "[Enable [6], Settle 0 ?A, Settle 0 (Rejected AbortError)]"
  let ?evs3 = "[Enable [6], Settle 0 ?A, Settle 0 (Rejected AbortError), Settle 0 ?C]"
  let ?W2 = "run '''' ?evs2 initial_world"
  let ?W3 = "run '''' ?evs3 initial_world"
  let ?snap = "\<lambda>d h. if h = (6::nat)
               then Some (case d of fires \<Rightarrow> [JStr ''a''] | floods \<Rightarrow> []
                          | landslides \<Rightarrow> [JStr ''c''])
               else None"
  note t3 = publications_whole_cycles [of "''''" ?evs3, unfolded Let_def]
  note t2 = publications_whole_cycles [of "''''" ?evs2, unfolded Let_def]
  have ne: "publications ?W3 \<noteq> []" by (simp add: trace_eval)
  then have mem: "last (publications ?W3) \<in> set (publications ?W3)" by simp
  have whole: "whole_cycle (last (publications ?W3))"
    using conjunct1 [OF t3] mem by blast
  have pred: "predictions ?W3 = pub_snapshot (last (publications ?W3))"
    using conjunct1 [OF conjunct2 [OF conjunct2 [OF conjunct2 [OF t3]]]] ne by simp
  have ho: "pub_hours (last (publications ?W3)) = [6]
      \<and> pub_outs (last (publications ?W3)) = [?A, Rejected AbortError, ?C]"
    by (simp add: trace_eval)
  have "pub_snapshot (last (publications ?W3)) d h = ?snap d h" for d h
    using whole ho
    by (cases d) (simp_all add: whole_cycle_def grid_def disasters_def cell_features_def
        infer_result_def ok_def FeatureCollection_def features_of_def)
  then have vals: "predictions ?W3 = ?snap"
    unfolding pred by (intro ext)
  have none: "publications ?W2 = []" by (simp add: trace_eval)
  have "\<exists>c. map_of (cycles ?W2) 0 = Some c \<and> cy_rest c = [] \<and> mounted (cy_epoch c) ?W2"
    by (simp add: trace_eval)
  then obtain c where c: "map_of (cycles ?W2) 0 = Some c" "cy_rest c = []"
      "mounted (cy_epoch c) ?W2"
    by blast
  have "\<exists>p. publications (step '''' (Settle 0 ?C) ?W2) = publications ?W2 @ [p]
           \<and> pub_cycle p = 0
           \<and> predictions (step '''' (Settle 0 ?C) ?W2) = pub_snapshot p"
    using conjunct2 [OF conjunct2 [OF conjunct2 [OF conjunct2 [OF t2]]]] c by metis
  then have last: "\<exists>p. publications (step '''' (Settle 0 ?C) ?W2) = [p] \<and> pub_cycle p = 0"
    using none by auto
  show ?thesis using ne whole vals none last by (intro conjI)
qed

text \<open>
  C2 as the spec states it fails: a cycle need not publish. With the horizon 6, disable the
  overlay while the first call is in flight, then let the three calls settle, each with one
  feature: every cell has resolved, the cycle is over, and nothing has been published.
\<close>

theorem cleaned_up_cycle_counterexample:
  "publications
     (run '''' [Enable [6], Disable,
                Settle 0 (Responded \<lparr>status = 200, body_text = Inr '''',
                            body_json = Inr (FeatureCollection [JNull])\<rparr>),
                Settle 0 (Responded \<lparr>status = 200, body_text = Inr '''',
                            body_json = Inr (FeatureCollection [JNull])\<rparr>),
                Settle 0 (Responded \<lparr>status = 200, body_text = Inr '''',
                            body_json = Inr (FeatureCollection [JNull])\<rparr>)]
        initial_world) = []
   \<and> cycles
       (run '''' [Enable [6], Disable,
                  Settle 0 (Responded \<lparr>status = 200, body_text = Inr '''',
                              body_json = Inr (FeatureCollection [JNull])\<rparr>),
                  Settle 0 (Responded \<lparr>status = 200, body_text = Inr '''',
                              body_json = Inr (FeatureCollection [JNull])\<rparr>),
                  Settle 0 (Responded \<lparr>status = 200, body_text = Inr '''',
                              body_json = Inr (FeatureCollection [JNull])\<rparr>)]
          initial_world) = []
   \<and> map call_of (calls (eng
       (run '''' [Enable [6], Disable,
                  Settle 0 (Responded \<lparr>status = 200, body_text = Inr '''',
                              body_json = Inr (FeatureCollection [JNull])\<rparr>),
                  Settle 0 (Responded \<lparr>status = 200, body_text = Inr '''',
                              body_json = Inr (FeatureCollection [JNull])\<rparr>),
                  Settle 0 (Responded \<lparr>status = 200, body_text = Inr '''',
                              body_json = Inr (FeatureCollection [JNull])\<rparr>)]
          initial_world)))
     = [(''/api/ai/infer'', ''fires'', 6, realtime), (''/api/ai/infer'', ''floods'', 6, realtime),
        (''/api/ai/infer'', ''landslides'', 6, realtime)]
   \<and> predictions
       (run '''' [Enable [6], Disable,
                  Settle 0 (Responded \<lparr>status = 200, body_text = Inr '''',
                              body_json = Inr (FeatureCollection [JNull])\<rparr>),
                  Settle 0 (Responded \<lparr>status = 200, body_text = Inr '''',
                              body_json = Inr (FeatureCollection [JNull])\<rparr>),
                  Settle 0 (Responded \<lparr>status = 200, body_text = Inr '''',
                              body_json = Inr (FeatureCollection [JNull])\<rparr>)]
          initial_world) fires 6 = None"
  by (simp add: trace_eval call_of_def empty_snapshot_def)

text \<open>
  What does hold after a stop. Once the effect's cleanup has run (the overlay disabled) or
  the component has unmounted, and until the effect runs again: no cycle is started, nothing
  is published and \<^verbatim>\<open>predictions\<close> keeps its value; the cycles that were suspended make at
  most the calls of the cells they had left. Disabling aborts no controller; unmounting
  aborts every controller registered at that moment and empties the table.
\<close>

lemma stop_quiesces:
  assumes "\<forall>ev \<in> set evs. \<not> is_Enable ev" and "stop = Disable \<or> stop = Unmount"
  shows "publications (run api evs (step api stop w)) = publications w
       \<and> predictions (run api evs (step api stop w)) = predictions w
       \<and> started (run api evs (step api stop w)) = started w
       \<and> length (calls (eng (run api evs (step api stop w))))
            \<le> length (calls (eng w)) + pending w
       \<and> calls (eng (step api stop w)) = calls (eng w)
       \<and> aborted (eng (step api Disable w)) = aborted (eng w)
       \<and> aborted (eng (step api Unmount w)) = aborted (eng w) @ map snd (abortControllers (eng w))
       \<and> abortControllers (eng (step api Unmount w)) = []"
proof -
  let ?w = "step api stop w"
  have l: "live ?w = None" using assms(2) by auto
  have q: "quiet_le (run api evs ?w) ?w" using run_quiet [OF l assms(1)] .
  have same: "publications ?w = publications w \<and> predictions ?w = predictions w
      \<and> started ?w = started w \<and> calls (eng ?w) = calls (eng w) \<and> pending ?w = pending w"
    using assms(2) by (auto simp: pending_def)
  show ?thesis using q same by (simp add: quiet_le_def cleanup_def)
qed

text \<open>
  C4. The code breaks the claim. With horizons 6 and 12, disable the overlay while the first
  call (fires, 6) is in flight: its controller stays registered and no abort is requested;
  when that call settles, the suspended loop goes on and calls (fires, 12), and so on to the
  last cell. After an unmount the first call's abort is requested, and the same further
  calls are made all the same: the loop takes the aborted call for a failed one.
\<close>

theorem stop_goes_on_requesting:
  "abortControllers (eng (run '''' [Enable [6, 12], Disable] initial_world)) = [(''fires-6'', 0)]
   \<and> aborted (eng (run '''' [Enable [6, 12], Disable] initial_world)) = []
   \<and> map call_of (calls (eng (run '''' [Enable [6, 12], Disable] initial_world)))
       = [(''/api/ai/infer'', ''fires'', 6, realtime)]
   \<and> map call_of (calls (eng
        (run '''' [Enable [6, 12], Disable, Settle 0 (Rejected AbortError)] initial_world)))
       = [(''/api/ai/infer'', ''fires'', 6, realtime), (''/api/ai/infer'', ''fires'', 12, realtime)]
   \<and> aborted (eng (run '''' [Enable [6, 12], Unmount] initial_world)) = [0]
   \<and> map call_of (calls (eng
        (run '''' [Enable [6, 12], Unmount, Settle 0 (Rejected AbortError)] initial_world)))
       = [(''/api/ai/infer'', ''fires'', 6, realtime), (''/api/ai/infer'', ''fires'', 12, realtime)]
   \<and> length (calls (eng
        (run '''' [Enable [6, 12], Unmount, Settle 0 (Rejected AbortError),
                   Settle 0 (Rejected AbortError), Settle 0 (Rejected AbortError),
                   Settle 0 (Rejected AbortError), Settle 0 (Rejected AbortError),
                   Settle 0 (Rejected AbortError)] initial_world))) = 6"
  by (simp add: trace_eval call_of_def)

section \<open>End to end\<close>

text \<open>
  C3 as the spec states it fails at its own example. With horizons 6 and 12 and a backend
  that answers, for (fires, 6), one Point feature with a risk of 0.9, the overlay draws one
  primitive, at altitude \<open>1 + 0.02\<close>, and its size is 0.036, not 0.078.
\<close>

theorem point_size_counterexample:
  "render_overlay (\<lambda>v. NaN) True [6, 12]
     (snd (fetchAll ''''
        (\<lambda>d h. Responded \<lparr>status = 200, body_text = Inr '''',
           body_json = Inr (JObj [(''geojson'', FeatureCollection
             (if d = ''fires'' \<and> h = 6
              then [JObj [(''type'', JStr ''Feature''),
                          (''geometry'', JObj [(''type'', JStr ''Point''),
                                               (''coordinates'', JArr [JNum 10, JNum 20])]),
                          (''properties'', JObj [(''risk'', JNum 0.9)])]]
              else []))])\<rparr>)
        [6, 12] True (initial_engine, empty_snapshot)))
   = Inr [[[PointMesh (JNum 20) (JNum 10) (Fin 0.036) ''#ff6600'' 1.02], [], []],
          [[], [], []]]
   \<and> Fin 0.036 \<noteq> Fin 0.078"
  by (simp add: render_overlay_def render_cell_def cell_of_def fetchAll_entry disasters_def
      cell_features_def infer_result_def ok_def FeatureCollection_def features_of_def
      render_feature_def GeoPoint_def point_size_def effective_risk_def point_altitude_def)

end
